theory Spec2Isabelle
  imports Main "HOL-Library.AList"
begin

section \<open>The model of the multi-region engine\<close>

text \<open>
  The extension slices regions out of a file into one untitled buffer, the sandbox, and
  writes edits of the buffer back to the file, on demand or live. This theory embeds the
  multi-region engine: \<open>openUnifiedSandbox\<close>, \<open>findSymbolAtLine\<close>,
  \<open>applySandboxSegmentsToOriginal\<close> with its shift calculus, the accept, discard and
  toggle commands, the change listener and the debounce timer it schedules.

  \<^item> Line numbers are JavaScript numbers holding integers; they are modelled as
    \<^typ>\<open>int\<close>, since the shift calculus moves them in both directions.
  \<^item> A \<^typ>\<open>string\<close> is the UTF-8 text, one \<^typ>\<open>char\<close> per byte. The separator is
    ASCII but for the scissors emoji, which is two code points (U+2702 and the variation
    selector U+FE0F) and six bytes; matching a literal gives the same result on bytes as
    on UTF-16 code units. The \<open>length\<close> of a line counts bytes here; no statement below
    depends on the column of an edit.
  \<^item> An exception is a value of \<open>js_error\<close>. A function that can throw returns a sum, or
    the state it reached together with the error when it has changed the state before.
  \<^item> Every handler (a command, the change listener, a timer callback) is one transition
    of the world and runs to its end. The timer callback is also given as the two steps on
    either side of its first \<open>await\<close>, so that other handlers can run in the world in
    which it is suspended. The busy flag \<open>mutex\<close> is a field of the session, so a handler
    can be started in a world where it is set.
\<close>

subsection \<open>Line ranges and the merge of candidate ranges\<close>

record LineRange =
  startLine :: int
  endLine :: int

text \<open>
  Step 3 of \<open>openUnifiedSandbox\<close>. \<^verbatim>\<open>ranges.sort((a, b) => a.startLine - b.startLine)\<close>
  is a stable sort on the start line, which is what \<^const>\<open>sort_key\<close> computes. The
  loop over the sorted ranges keeps the list \<open>mergedRanges\<close>; one iteration is
  \<open>merge_step\<close>: a range that starts at most two lines after the end of the last merged
  range extends it, any other range is appended.
\<close>

definition merge_step :: "LineRange list \<Rightarrow> LineRange \<Rightarrow> LineRange list" where
  "merge_step mergedRanges r =
     (if mergedRanges = [] then [r]
      else let lst = last mergedRanges in
        if startLine r \<le> endLine lst + 2
        then butlast mergedRanges @ [lst\<lparr>endLine := max (endLine lst) (endLine r)\<rparr>]
        else mergedRanges @ [r])"

definition mergeRanges :: "LineRange list \<Rightarrow> LineRange list" where
  "mergeRanges ranges = foldl merge_step [] (sort_key startLine ranges)"

subsection \<open>The separator pattern, \<open>split\<close> and the trailing blank line\<close>

text \<open>
  \<open>SEPARATOR_REGEX\<close> is the literal \<open>/* S --- DEBUG SLICE: \<close>, the captured group
  \<open>region_\<close> followed by one or more digits, the literal \<open> --- S */\<close> and a line break
  \<open>\r?\n\<close>, where \<open>S\<close> is the scissors emoji. \<open>match_sep s\<close> matches the pattern at the
  start of \<open>s\<close> and returns the captured id with the rest of the string. The digits are
  matched greedily; the pattern goes on with a space, so giving a digit back never helps,
  and the same holds for the optional carriage return.
\<close>

abbreviation LF :: char where "LF \<equiv> CHR 0x0A"

abbreviation CR :: char where "CR \<equiv> CHR 0x0D"

definition scissors :: string where
  "scissors = [CHR 0xE2, CHR 0x9C, CHR 0x82, CHR 0xEF, CHR 0xB8, CHR 0x8F]"

definition sep_open :: string where
  "sep_open = ''/* '' @ scissors @ '' --- DEBUG SLICE: ''"

definition sep_close :: string where
  "sep_close = '' --- '' @ scissors @ '' */''"

definition is_digit :: "char \<Rightarrow> bool" where
  "is_digit c \<longleftrightarrow> c \<in> set ''0123456789''"

fun strip_prefix :: "'a list \<Rightarrow> 'a list \<Rightarrow> 'a list option" where
  "strip_prefix [] s = Some s"
| "strip_prefix (p # ps) [] = None"
| "strip_prefix (p # ps) (c # cs) = (if p = c then strip_prefix ps cs else None)"

definition match_eol :: "string \<Rightarrow> string option" where
  "match_eol s =
     (case strip_prefix [CR, LF] s of
        Some r \<Rightarrow> Some r
      | None \<Rightarrow> strip_prefix [LF] s)"

definition match_sep :: "string \<Rightarrow> (string \<times> string) option" where
  "match_sep s =
     (case strip_prefix (sep_open @ ''region_'') s of
        None \<Rightarrow> None
      | Some s1 \<Rightarrow>
          let ds = takeWhile is_digit s1; s2 = dropWhile is_digit s1 in
          if ds = [] then None
          else (case strip_prefix sep_close s2 of
                  None \<Rightarrow> None
                | Some s3 \<Rightarrow>
                    (case match_eol s3 of
                       None \<Rightarrow> None
                     | Some s4 \<Rightarrow> Some (''region_'' @ ds, s4))))"

lemma strip_prefix_Some: "strip_prefix p s = Some r \<longleftrightarrow> s = p @ r"
  by (induction p s rule: strip_prefix.induct) auto

lemma strip_prefix_append [simp]: "strip_prefix p (p @ r) = Some r"
  by (simp add: strip_prefix_Some)

lemma match_eol_length: "match_eol s = Some r \<Longrightarrow> length r < length s"
  by (auto simp: match_eol_def strip_prefix_Some split: option.splits)

lemma match_sep_length: "match_sep s = Some (rid, r) \<Longrightarrow> length r < length s"
proof -
  assume m: "match_sep s = Some (rid, r)"
  then obtain s1 s3 where s1: "s = (sep_open @ ''region_'') @ s1"
    and s3: "dropWhile is_digit s1 = sep_close @ s3" and r: "match_eol s3 = Some r"
    by (auto simp: match_sep_def Let_def strip_prefix_Some split: option.splits if_splits)
  have "length (dropWhile is_digit s1) \<le> length s1"
    by (rule length_dropWhile_le)
  with s3 have "length s3 \<le> length s1" by simp
  moreover from r have "length r < length s3" by (rule match_eol_length)
  ultimately show ?thesis using s1 by simp
qed

text \<open>
  \<open>sandboxText.split(SEPARATOR_REGEX)\<close>: the string is scanned from the left; at a match,
  the piece since the last match and the captured id are emitted and the scan goes on
  after the match; the piece after the last match ends the array. The accumulator holds
  the current piece reversed. The result is the \<open>parts\<close> array: the text before the first
  separator, then an id and a code block for every separator.
\<close>

function split_sep :: "string \<Rightarrow> string \<Rightarrow> string list" where
  "split_sep acc [] = [rev acc]"
| "split_sep acc (c # cs) =
     (case match_sep (c # cs) of
        Some (rid, r) \<Rightarrow> rev acc # rid # split_sep [] r
      | None \<Rightarrow> split_sep (c # acc) cs)"
  by pat_completeness auto

termination
  by (relation "measure (\<lambda>(acc, s). length s)") (auto dest: match_sep_length)

text \<open>
  \<^verbatim>\<open>code.replace(/\r?\n\r?\n$/, '')\<close> removes the first match from the left. A match
  ends at the end of the string, so it starts at the first position from which the rest of
  the string is one of the four sequences of \<open>blank_tails\<close>.
\<close>

definition blank_tails :: "string set" where
  "blank_tails = {[CR, LF, CR, LF], [CR, LF, LF], [LF, CR, LF], [LF, LF]}"

fun stripTrailing :: "string \<Rightarrow> string" where
  "stripTrailing [] = []"
| "stripTrailing (c # cs) = (if c # cs \<in> blank_tails then [] else c # stripTrailing cs)"

text \<open>
  The loop \<^verbatim>\<open>for (let i = 1; i < parts.length; i += 2)\<close> over the parts after the
  first. \<open>parsedCodeBlocks\<close> is a JavaScript \<open>Map\<close>: an association list updated in place,
  whose length is the \<open>size\<close> of the map. A dangling id with no code block would throw on
  \<open>code.replace\<close>.
\<close>

datatype js_error = TypeError | IllegalLine | IllegalArgument | FileNotFound

fun parseCodeBlocks :: "string list \<Rightarrow> (string \<times> string) list \<Rightarrow> js_error + (string \<times> string) list" where
  "parseCodeBlocks (regionId # code # rest) blocks =
     parseCodeBlocks rest (AList.update regionId (stripTrailing code) blocks)"
| "parseCodeBlocks [regionId] blocks = Inl TypeError"
| "parseCodeBlocks [] blocks = Inr blocks"

definition parseSandboxText :: "string \<Rightarrow> js_error + (string \<times> string) list" where
  "parseSandboxText sandboxText = parseCodeBlocks (drop 1 (split_sep [] sandboxText)) []"

text \<open>\<^verbatim>\<open>newCode.split(/\r?\n/)\<close>, whose length is the line count of a code block.\<close>

fun splitEol :: "string \<Rightarrow> string \<Rightarrow> string list" where
  "splitEol acc [] = [rev acc]"
| "splitEol acc (c # cs) =
     (if c = LF then rev acc # splitEol [] cs
      else if c = CR then
        (case cs of
           [] \<Rightarrow> splitEol (c # acc) cs
         | d # ds \<Rightarrow> if d = LF then rev acc # splitEol [] ds else splitEol (c # acc) cs)
      else splitEol (c # acc) cs)"

subsection \<open>Region ids\<close>

text \<open>The template literal \<^verbatim>\<open>`region_${idx}`\<close>: the index in decimal.\<close>

definition digit_char :: "nat \<Rightarrow> char" where
  "digit_char d = ''0123456789'' ! d"

fun show_nat :: "nat \<Rightarrow> string" where
  "show_nat n = (if n < 10 then [digit_char n] else show_nat (n div 10) @ [digit_char (n mod 10)])"

declare show_nat.simps [simp del]

definition regionId :: "nat \<Rightarrow> string" where
  "regionId idx = ''region_'' @ show_nat idx"

subsection \<open>Documents\<close>

text \<open>
  The editor's document interface as far as the engine uses it. A document is its lines and
  its end-of-line sequence (an editor document has at least one line). \<open>lineAt\<close> throws
  outside the document; the \<open>Position\<close> constructor throws on a negative line or
  character; \<open>offsetAt\<close> moves a position into the document before it computes the offset;
  \<open>substring\<close> clamps its arguments to the string and swaps them when the first is larger.
\<close>

record TextDocument =
  docLines :: "string list"
  docEol :: string

fun joinLines :: "string \<Rightarrow> string list \<Rightarrow> string" where
  "joinLines e [] = []"
| "joinLines e [l] = l"
| "joinLines e (l # l' # ls) = l @ e @ joinLines e (l' # ls)"

definition getText :: "TextDocument \<Rightarrow> string" where
  "getText doc = joinLines (docEol doc) (docLines doc)"

definition lineCount :: "TextDocument \<Rightarrow> int" where
  "lineCount doc = int (length (docLines doc))"

definition lineAt :: "TextDocument \<Rightarrow> int \<Rightarrow> js_error + string" where
  "lineAt doc n =
     (if n < 0 \<or> lineCount doc \<le> n then Inl IllegalLine else Inr (docLines doc ! nat n))"

definition mkPosition :: "int \<Rightarrow> int \<Rightarrow> js_error + (int \<times> int)" where
  "mkPosition line character =
     (if line < 0 \<or> character < 0 then Inl IllegalArgument else Inr (line, character))"

definition validatePosition :: "TextDocument \<Rightarrow> int \<times> int \<Rightarrow> nat \<times> nat" where
  "validatePosition doc p =
     (let (line, character) = p in
      if line < 0 then (0, 0)
      else if lineCount doc \<le> line
        then (length (docLines doc) - 1, length (last (docLines doc)))
        else (nat line, nat (min (max character 0) (int (length (docLines doc ! nat line))))))"

definition offsetAt :: "TextDocument \<Rightarrow> int \<times> int \<Rightarrow> nat" where
  "offsetAt doc p =
     (if docLines doc = [] then 0
      else let (line, character) = validatePosition doc p in
        sum_list (map (\<lambda>l. length l + length (docEol doc)) (take line (docLines doc))) + character)"

definition substring :: "string \<Rightarrow> nat \<Rightarrow> nat \<Rightarrow> string" where
  "substring s a b =
     (let finalStart = min a (length s); finalEnd = min b (length s);
          from = min finalStart finalEnd; to = max finalStart finalEnd
      in take (to - from) (drop from s))"

subsection \<open>Symbols\<close>

text \<open>
  The symbol tree of the Symbol Provider, with the kinds of \<open>vscode.SymbolKind\<close> and the
  line range of each symbol. \<open>findSymbolAtLine\<close> returns at the first symbol of the list
  whose range contains the target line: \<open>bestMatch\<close> is that symbol when it is a valid
  container, replaced by the result of the search among its children when that result is
  a valid container; the function returns \<^verbatim>\<open>bestMatch || symbol\<close>.
\<close>

datatype SymbolKind =
    FileKind | ModuleKind | NamespaceKind | PackageKind | ClassKind | MethodKind
  | PropertyKind | FieldKind | ConstructorKind | EnumKind | InterfaceKind | FunctionKind
  | VariableKind | ConstantKind | StringKind | NumberKind | BooleanKind | ArrayKind
  | ObjectKind | KeyKind | NullKind | EnumMemberKind | StructKind | EventKind
  | OperatorKind | TypeParameterKind

datatype DocumentSymbol =
  DocumentSymbol (kind: SymbolKind) (symRange: LineRange) (children: "DocumentSymbol list")

definition validContainers :: "SymbolKind list" where
  "validContainers = [FunctionKind, MethodKind, ClassKind, ConstructorKind]"

fun findSymbolAtLine :: "DocumentSymbol list \<Rightarrow> int \<Rightarrow> DocumentSymbol option" where
  "findSymbolAtLine [] targetLine = None"
| "findSymbolAtLine (DocumentSymbol k r cs # symbols) targetLine =
     (if startLine r \<le> targetLine \<and> endLine r \<ge> targetLine then
        let symbol = DocumentSymbol k r cs;
            bestMatch = (if k \<in> set validContainers then Some symbol else None);
            bestMatch' =
              (if cs \<noteq> [] then
                 (case findSymbolAtLine cs targetLine of
                    Some childMatch \<Rightarrow>
                      if kind childMatch \<in> set validContainers then Some childMatch else bestMatch
                  | None \<Rightarrow> bestMatch)
               else bestMatch)
        in (case bestMatch' of Some b \<Rightarrow> Some b | None \<Rightarrow> Some symbol)
      else findSymbolAtLine symbols targetLine)"

text \<open>Step 2 of \<open>openUnifiedSandbox\<close>: the range for one target line.\<close>

definition lineToRange :: "DocumentSymbol list \<Rightarrow> TextDocument \<Rightarrow> int \<Rightarrow> LineRange" where
  "lineToRange symbols origDoc line =
     (case findSymbolAtLine symbols line of
        Some symb \<Rightarrow> \<lparr>startLine = startLine (symRange symb), endLine = endLine (symRange symb)\<rparr>
      | None \<Rightarrow> \<lparr>startLine = max 0 (line - 4), endLine = min (lineCount origDoc - 1) (line + 4)\<rparr>)"

subsection \<open>Sessions, edits and the world\<close>

text \<open>
  \<open>RegionMapping\<close> and \<open>SandboxMapping\<close> are the types of the source; the field \<open>id\<close> is
  \<open>id_region\<close> here. A \<open>Replace\<close> is one \<open>edit.replace\<close> of a workspace edit: the range
  and the new text, which is \<open>None\<close> when the source passes \<open>undefined\<close>.

  The world holds what the handlers read and write.
  \<^item> \<open>sandboxMap\<close> is the registry, from the key of a sandbox document to its session.
    Sessions are objects shared by the registry and by the closures of pending timers, so
    they live in the store \<open>sessions\<close> and are named by reference.
  \<^item> \<open>timers\<close> holds the pending timeouts: the handle returned by \<open>setTimeout\<close> and
    what the callback captured, the session and the sandbox document.
  \<^item> \<open>buffers\<close> is the text of the untitled documents, \<open>docs\<close> the files of the
    Document Store, \<open>backups\<close> the files of the backup directory.
  \<^item> \<open>submitted\<close>, \<open>saved\<close> and \<open>messages\<close> log the edits passed to \<open>applyEdit\<close>, the
    files saved, and the notifications shown (with the errors written to the console).

  A Document Store answers an edit with the new document, or with \<open>None\<close> when
  \<open>applyEdit\<close> reports that the edit was not applied. It is a parameter of the handlers.

  The messages are, in the order of the datatype: the error shown when the separator guard
  fails; the notices of the accept command for an unregistered document and for a
  registered one; the notice and the error of the discard command; the notice of a new
  sandbox with its number of segments; the two notices of the toggle command; and the
  error the timer callback writes to the console when a cycle throws.
\<close>

record RegionMapping =
  id_region :: string
  originalRange :: LineRange
  originalContent :: string

record SandboxMapping =
  originalUri :: string
  regions :: "RegionMapping list"
  isLive :: bool
  debounce :: "nat option"
  backupUri :: "string option"
  mutex :: bool

record Replace =
  rStartLine :: int
  rStartChar :: int
  rEndLine :: int
  rEndChar :: int
  newText :: "string option"

datatype message =
    SeparatorDeleted
  | NotRegistered
  | ChangesKept
  | SandboxDiscarded
  | ErrorDiscarding js_error
  | SandboxCreated nat
  | LiveSyncEnabled
  | LiveSyncDisabled
  | SyncError js_error

type_synonym documentStore = "string \<Rightarrow> TextDocument \<Rightarrow> Replace list \<Rightarrow> TextDocument option"

record world =
  sandboxMap :: "string \<rightharpoonup> nat"
  sessions :: "nat \<Rightarrow> SandboxMapping"
  nextSession :: nat
  timers :: "nat \<rightharpoonup> nat \<times> string"
  nextTimer :: nat
  buffers :: "string \<Rightarrow> string"
  docs :: "string \<rightharpoonup> TextDocument"
  backups :: "string \<rightharpoonup> string"
  submitted :: "(string \<times> Replace list) list"
  saved :: "string list"
  messages :: "message list"

subsection \<open>Extraction\<close>

text \<open>
  Step 4 of \<open>openUnifiedSandbox\<close> reads the text of every merged range and renders the
  buffer; steps 5 and 6 create the untitled document, whose key the editor chooses, and
  register the session. Nothing is changed when an exception is thrown on the way.
\<close>

definition renderRegion :: "string \<Rightarrow> string \<Rightarrow> string" where
  "renderRegion rid content = sep_open @ rid @ sep_close @ [LF] @ content @ [LF, LF]"

definition regionContent :: "TextDocument \<Rightarrow> LineRange \<Rightarrow> js_error + string" where
  "regionContent origDoc rng =
     (case mkPosition (startLine rng) 0 of
        Inl e \<Rightarrow> Inl e
      | Inr p1 \<Rightarrow>
          let startOffset = offsetAt origDoc p1 in
          (case lineAt origDoc (endLine rng) of
             Inl e \<Rightarrow> Inl e
           | Inr line \<Rightarrow>
               (case mkPosition (endLine rng) (int (length line)) of
                  Inl e \<Rightarrow> Inl e
                | Inr p2 \<Rightarrow>
                    let endOffset = offsetAt origDoc p2
                    in Inr (substring (getText origDoc) startOffset endOffset))))"

fun buildRegions :: "TextDocument \<Rightarrow> nat \<Rightarrow> LineRange list \<Rightarrow> js_error + RegionMapping list \<times> string" where
  "buildRegions origDoc idx [] = Inr ([], [])"
| "buildRegions origDoc idx (rng # rest) =
     (case regionContent origDoc rng of
        Inl e \<Rightarrow> Inl e
      | Inr content \<Rightarrow>
          (case buildRegions origDoc (Suc idx) rest of
             Inl e \<Rightarrow> Inl e
           | Inr (regs, sandboxText) \<Rightarrow>
               Inr (\<lparr>id_region = regionId idx, originalRange = rng, originalContent = content\<rparr> # regs,
                    renderRegion (regionId idx) content @ sandboxText)))"

definition openUnifiedSandbox ::
  "DocumentSymbol list \<Rightarrow> string \<Rightarrow> string \<Rightarrow> int list \<Rightarrow> world \<Rightarrow> world \<times> js_error option" where
  "openUnifiedSandbox symbols docKey uriStr targetLines w =
     (case docs w uriStr of
        None \<Rightarrow> (w, Some FileNotFound)
      | Some origDoc \<Rightarrow>
          let ranges = map (lineToRange symbols origDoc) targetLines;
              mergedRanges = mergeRanges ranges
          in (case buildRegions origDoc 0 mergedRanges of
                Inl e \<Rightarrow> (w, Some e)
              | Inr (regs, sandboxText) \<Rightarrow>
                  let a = nextSession w
                  in (w\<lparr>buffers := (buffers w)(docKey := sandboxText),
                        sessions := (sessions w)(a :=
                          \<lparr>originalUri = uriStr, regions = regs, isLive = False,
                           debounce = None, backupUri = None, mutex = False\<rparr>),
                        nextSession := Suc a,
                        sandboxMap := (sandboxMap w)(docKey \<mapsto> a),
                        messages := messages w @ [SandboxCreated (length regs)]\<rparr>, None)))"

subsection \<open>Write-back\<close>

text \<open>
  \<open>applySandboxSegmentsToOriginal\<close>: parse the buffer, compare the number of parsed ids
  with the number of regions, build one edit with a replacement per region, submit it, save
  the file and run the shift calculus. The \<open>Range\<close> constructor orders its two positions.
  In the shift calculus \<open>newCode.split\<close> throws when the id of a region is not among the
  parsed ids; the regions before it have been updated by then.

  The function is asynchronous. \<open>applyStart\<close> is what a call does before its first
  \<open>await\<close>, the one of \<open>openTextDocument\<close>: it parses the buffer and runs the guard, and
  either ends the call or hands the parsed blocks on. \<open>applyResume\<close> is the rest of the
  call, from the moment it is resumed. \<open>applySandboxSegmentsToOriginal\<close> is the call that
  is resumed in the world in which it was suspended.
\<close>

definition isBefore :: "int \<times> int \<Rightarrow> int \<times> int \<Rightarrow> bool" where
  "isBefore p q \<longleftrightarrow> fst p < fst q \<or> (fst p = fst q \<and> snd p < snd q)"

definition mkReplace :: "int \<Rightarrow> int \<Rightarrow> int \<Rightarrow> int \<Rightarrow> string option \<Rightarrow> js_error + Replace" where
  "mkReplace sl sc el ec txt =
     (case mkPosition sl sc of
        Inl e \<Rightarrow> Inl e
      | Inr start \<Rightarrow>
          (case mkPosition el ec of
             Inl e \<Rightarrow> Inl e
           | Inr stop \<Rightarrow>
               if isBefore start stop
               then Inr \<lparr>rStartLine = sl, rStartChar = sc, rEndLine = el, rEndChar = ec, newText = txt\<rparr>
               else Inr \<lparr>rStartLine = el, rStartChar = ec, rEndLine = sl, rEndChar = sc, newText = txt\<rparr>))"

fun buildEdit :: "(string \<times> string) list \<Rightarrow> TextDocument \<Rightarrow> RegionMapping list \<Rightarrow> js_error + Replace list" where
  "buildEdit parsedCodeBlocks originalDoc [] = Inr []"
| "buildEdit parsedCodeBlocks originalDoc (region # rest) =
     (let newCode = map_of parsedCodeBlocks (id_region region);
          endLine' = min (endLine (originalRange region)) (lineCount originalDoc - 1)
      in case lineAt originalDoc endLine' of
           Inl e \<Rightarrow> Inl e
         | Inr line \<Rightarrow>
             (case mkReplace (startLine (originalRange region)) 0 endLine' (int (length line)) newCode of
                Inl e \<Rightarrow> Inl e
              | Inr replace \<Rightarrow>
                  (case buildEdit parsedCodeBlocks originalDoc rest of
                     Inl e \<Rightarrow> Inl e
                   | Inr edit \<Rightarrow> Inr (replace # edit))))"

fun shiftCalculus ::
  "(string \<times> string) list \<Rightarrow> int \<Rightarrow> RegionMapping list \<Rightarrow> RegionMapping list \<times> js_error option" where
  "shiftCalculus parsedCodeBlocks currentShift [] = ([], None)"
| "shiftCalculus parsedCodeBlocks currentShift (region # rest) =
     (case map_of parsedCodeBlocks (id_region region) of
        None \<Rightarrow> (region # rest, Some TypeError)
      | Some newCode \<Rightarrow>
          let newCodeLineCount = int (length (splitEol [] newCode));
              oldLineCount = (endLine (originalRange region) - startLine (originalRange region)) + 1;
              startLine' = startLine (originalRange region) + currentShift;
              region' = region\<lparr>originalRange :=
                          \<lparr>startLine = startLine', endLine = startLine' + newCodeLineCount - 1\<rparr>\<rparr>;
              (rest', err) = shiftCalculus parsedCodeBlocks
                               (currentShift + (newCodeLineCount - oldLineCount)) rest
          in (region' # rest', err))"

definition applyStart ::
  "nat \<Rightarrow> string \<Rightarrow> world \<Rightarrow> world \<times> js_error option + (string \<times> string) list" where
  "applyStart a docKey w =
     (let mapping = sessions w a;
          sandboxText = buffers w docKey
      in case parseSandboxText sandboxText of
           Inl e \<Rightarrow> Inl (w, Some e)
         | Inr parsedCodeBlocks \<Rightarrow>
             if length parsedCodeBlocks \<noteq> length (regions mapping)
             then Inl (w\<lparr>messages := messages w @ [SeparatorDeleted]\<rparr>, None)
             else Inr parsedCodeBlocks)"

definition applyResume ::
  "documentStore \<Rightarrow> nat \<Rightarrow> (string \<times> string) list \<Rightarrow> world \<Rightarrow> world \<times> js_error option" where
  "applyResume store a parsedCodeBlocks w =
     (let mapping = sessions w a
      in case docs w (originalUri mapping) of
           None \<Rightarrow> (w, Some FileNotFound)
         | Some originalDoc \<Rightarrow>
             (case buildEdit parsedCodeBlocks originalDoc (regions mapping) of
                Inl e \<Rightarrow> (w, Some e)
              | Inr edit \<Rightarrow>
                  let w1 = w\<lparr>submitted := submitted w @ [(originalUri mapping, edit)]\<rparr>
                  in (case store (originalUri mapping) originalDoc edit of
                        None \<Rightarrow> (w1, None)
                      | Some newDoc \<Rightarrow>
                          let w2 = w1\<lparr>docs := (docs w1)(originalUri mapping \<mapsto> newDoc),
                                      saved := saved w1 @ [originalUri mapping]\<rparr>;
                              (regions', err) = shiftCalculus parsedCodeBlocks 0 (regions mapping)
                          in (w2\<lparr>sessions := (sessions w2)(a := mapping\<lparr>regions := regions'\<rparr>)\<rparr>,
                              err))))"

definition applySandboxSegmentsToOriginal ::
  "documentStore \<Rightarrow> nat \<Rightarrow> string \<Rightarrow> world \<Rightarrow> world \<times> js_error option" where
  "applySandboxSegmentsToOriginal store a docKey w =
     (case applyStart a docKey w of
        Inl ended \<Rightarrow> ended
      | Inr parsedCodeBlocks \<Rightarrow> applyResume store a parsedCodeBlocks w)"

lemma applySandboxSegmentsToOriginal_unfold:
  "applySandboxSegmentsToOriginal store a docKey w =
     (let mapping = sessions w a;
          sandboxText = buffers w docKey
      in case parseSandboxText sandboxText of
           Inl e \<Rightarrow> (w, Some e)
         | Inr parsedCodeBlocks \<Rightarrow>
             if length parsedCodeBlocks \<noteq> length (regions mapping)
             then (w\<lparr>messages := messages w @ [SeparatorDeleted]\<rparr>, None)
             else
               (case docs w (originalUri mapping) of
                  None \<Rightarrow> (w, Some FileNotFound)
                | Some originalDoc \<Rightarrow>
                    (case buildEdit parsedCodeBlocks originalDoc (regions mapping) of
                       Inl e \<Rightarrow> (w, Some e)
                     | Inr edit \<Rightarrow>
                         let w1 = w\<lparr>submitted := submitted w @ [(originalUri mapping, edit)]\<rparr>
                         in (case store (originalUri mapping) originalDoc edit of
                               None \<Rightarrow> (w1, None)
                             | Some newDoc \<Rightarrow>
                                 let w2 = w1\<lparr>docs := (docs w1)(originalUri mapping \<mapsto> newDoc),
                                             saved := saved w1 @ [originalUri mapping]\<rparr>;
                                     (regions', err) = shiftCalculus parsedCodeBlocks 0 (regions mapping)
                                 in (w2\<lparr>sessions := (sessions w2)(a := mapping\<lparr>regions := regions'\<rparr>)\<rparr>,
                                     err)))))"
  by (simp add: applySandboxSegmentsToOriginal_def applyStart_def applyResume_def Let_def
      split: sum.split)

subsection \<open>Commands, change listener and debounce timer\<close>

text \<open>
  The commands take the key of the document of the active editor, if there is one.
  \<open>timerFires\<close> is the event of a pending timeout elapsing: the handle leaves the pending
  timers and the callback runs on the session and the document it captured.
  \<open>userEdit\<close> is an edit of an untitled document followed by the change notification.

  The timer callback follows the two steps of the write-back. \<open>callbackStart\<close> returns
  at once when the busy flag is set; otherwise it sets the flag and starts the write-back,
  which either ends, and the callback with it, or is suspended with the flag set.
  \<open>callbackEnd\<close> is the \<open>catch\<close> and the \<open>finally\<close> of the callback: an error is
  written to the console and the flag is cleared. \<open>callbackResume\<close> is the rest of the
  write-back, in the world in which the callback is resumed, followed by the end of the
  callback. \<open>timerCallback\<close> is the callback that is resumed in the world in which it was
  suspended.
\<close>

definition applySandboxCmd :: "string option \<Rightarrow> world \<Rightarrow> world" where
  "applySandboxCmd editor w =
     (case editor of
        None \<Rightarrow> w
      | Some docUriStr \<Rightarrow>
          (case sandboxMap w docUriStr of
             None \<Rightarrow> w\<lparr>messages := messages w @ [NotRegistered]\<rparr>
           | Some a \<Rightarrow>
               let mapping = sessions w a;
                   w1 = w\<lparr>messages := messages w @ [ChangesKept]\<rparr>;
                   w2 = (case backupUri mapping of
                           Some b \<Rightarrow> w1\<lparr>backups := (backups w1)(b := None)\<rparr>
                         | None \<Rightarrow> w1)
               in w2\<lparr>sandboxMap := (sandboxMap w2)(docUriStr := None)\<rparr>))"

fun buildRestore :: "TextDocument \<Rightarrow> RegionMapping list \<Rightarrow> js_error + Replace list" where
  "buildRestore originalDoc [] = Inr []"
| "buildRestore originalDoc (region # rest) =
     (case lineAt originalDoc (min (endLine (originalRange region)) (lineCount originalDoc - 1)) of
        Inl e \<Rightarrow> Inl e
      | Inr line \<Rightarrow>
          (case mkReplace (startLine (originalRange region)) 0 (endLine (originalRange region))
                  (int (length line)) (Some (originalContent region)) of
             Inl e \<Rightarrow> Inl e
           | Inr replace \<Rightarrow>
               (case buildRestore originalDoc rest of
                  Inl e \<Rightarrow> Inl e
                | Inr edit \<Rightarrow> Inr (replace # edit))))"

definition discardSandboxCmd :: "documentStore \<Rightarrow> string option \<Rightarrow> world \<Rightarrow> world" where
  "discardSandboxCmd store editor w =
     (case editor of
        None \<Rightarrow> w
      | Some docUriStr \<Rightarrow>
          (case sandboxMap w docUriStr of
             None \<Rightarrow> w
           | Some a \<Rightarrow>
               let mapping = sessions w a in
               (case docs w (originalUri mapping) of
                  None \<Rightarrow> w\<lparr>messages := messages w @ [ErrorDiscarding FileNotFound]\<rparr>
                | Some originalDoc \<Rightarrow>
                    (case buildRestore originalDoc (regions mapping) of
                       Inl e \<Rightarrow> w\<lparr>messages := messages w @ [ErrorDiscarding e]\<rparr>
                     | Inr edit \<Rightarrow>
                         let w1 = w\<lparr>submitted := submitted w @ [(originalUri mapping, edit)]\<rparr>;
                             w2 = (case store (originalUri mapping) originalDoc edit of
                                     None \<Rightarrow> w1
                                   | Some newDoc \<Rightarrow> w1\<lparr>docs := (docs w1)(originalUri mapping \<mapsto> newDoc)\<rparr>);
                             w3 = w2\<lparr>saved := saved w2 @ [originalUri mapping]\<rparr>;
                             w4 = (case backupUri mapping of
                                     Some b \<Rightarrow> w3\<lparr>backups := (backups w3)(b := None)\<rparr>
                                   | None \<Rightarrow> w3)
                         in w4\<lparr>sandboxMap := (sandboxMap w4)(docUriStr := None),
                               messages := messages w4 @ [SandboxDiscarded]\<rparr>))))"

definition toggleLiveSyncCmd :: "string option \<Rightarrow> world \<Rightarrow> world" where
  "toggleLiveSyncCmd editor w =
     (case editor of
        None \<Rightarrow> w
      | Some docUriStr \<Rightarrow>
          (case sandboxMap w docUriStr of
             None \<Rightarrow> w
           | Some a \<Rightarrow>
               let mapping = sessions w a;
                   live = \<not> isLive mapping
               in w\<lparr>sessions := (sessions w)(a := mapping\<lparr>isLive := live\<rparr>),
                    messages := messages w @ [if live then LiveSyncEnabled else LiveSyncDisabled]\<rparr>))"

definition changeListener :: "string \<Rightarrow> bool \<Rightarrow> world \<Rightarrow> world" where
  "changeListener docKey isUntitled w =
     (if \<not> isUntitled then w
      else case sandboxMap w docKey of
             None \<Rightarrow> w
           | Some a \<Rightarrow>
               let mapping = sessions w a in
               if \<not> isLive mapping then w
               else
                 let w1 = (case debounce mapping of
                             Some h \<Rightarrow> w\<lparr>timers := (timers w)(h := None)\<rparr>
                           | None \<Rightarrow> w);
                     h = nextTimer w1
                 in w1\<lparr>timers := (timers w1)(h \<mapsto> (a, docKey)),
                       nextTimer := Suc h,
                       sessions := (sessions w1)(a := mapping\<lparr>debounce := Some h\<rparr>)\<rparr>)"

definition callbackEnd :: "nat \<Rightarrow> world \<times> js_error option \<Rightarrow> world" where
  "callbackEnd a ended =
     (let (w, err) = ended;
          w' = (case err of
                  Some e \<Rightarrow> w\<lparr>messages := messages w @ [SyncError e]\<rparr>
                | None \<Rightarrow> w)
      in w'\<lparr>sessions := (sessions w')(a := (sessions w' a)\<lparr>mutex := False\<rparr>)\<rparr>)"

definition callbackStart ::
  "nat \<Rightarrow> string \<Rightarrow> world \<Rightarrow> world \<times> (string \<times> string) list option" where
  "callbackStart a docKey w =
     (if mutex (sessions w a) then (w, None)
      else
        let w1 = w\<lparr>sessions := (sessions w)(a := (sessions w a)\<lparr>mutex := True\<rparr>)\<rparr>
        in case applyStart a docKey w1 of
             Inl ended \<Rightarrow> (callbackEnd a ended, None)
           | Inr parsedCodeBlocks \<Rightarrow> (w1, Some parsedCodeBlocks))"

definition callbackResume ::
  "documentStore \<Rightarrow> nat \<Rightarrow> (string \<times> string) list \<Rightarrow> world \<Rightarrow> world" where
  "callbackResume store a parsedCodeBlocks w =
     callbackEnd a (applyResume store a parsedCodeBlocks w)"

definition timerCallback :: "documentStore \<Rightarrow> nat \<Rightarrow> string \<Rightarrow> world \<Rightarrow> world" where
  "timerCallback store a docKey w =
     (case callbackStart a docKey w of
        (w1, None) \<Rightarrow> w1
      | (w1, Some parsedCodeBlocks) \<Rightarrow> callbackResume store a parsedCodeBlocks w1)"

lemma timerCallback_unfold:
  "timerCallback store a docKey w =
     (if mutex (sessions w a) then w
      else
        let w1 = w\<lparr>sessions := (sessions w)(a := (sessions w a)\<lparr>mutex := True\<rparr>)\<rparr>;
            (w2, err) = applySandboxSegmentsToOriginal store a docKey w1;
            w3 = (case err of
                    Some e \<Rightarrow> w2\<lparr>messages := messages w2 @ [SyncError e]\<rparr>
                  | None \<Rightarrow> w2)
        in w3\<lparr>sessions := (sessions w3)(a := (sessions w3 a)\<lparr>mutex := False\<rparr>)\<rparr>)"
  by (simp add: timerCallback_def callbackStart_def callbackResume_def callbackEnd_def
      applySandboxSegmentsToOriginal_def Let_def split: sum.split prod.split)

definition timerFires :: "documentStore \<Rightarrow> nat \<Rightarrow> world \<Rightarrow> world" where
  "timerFires store h w =
     (case timers w h of
        None \<Rightarrow> w
      | Some (a, docKey) \<Rightarrow> timerCallback store a docKey (w\<lparr>timers := (timers w)(h := None)\<rparr>))"

definition userEdit :: "string \<Rightarrow> string \<Rightarrow> world \<Rightarrow> world" where
  "userEdit docKey txt w = changeListener docKey True (w\<lparr>buffers := (buffers w)(docKey := txt)\<rparr>)"

section \<open>Vocabulary of the statements\<close>

text \<open>
  The lines a range covers, the gap the merge leaves between two ranges, and the invariant
  of the merge loop over the prefix \<open>ps\<close> already consumed.
\<close>

definition lines_of :: "LineRange \<Rightarrow> int set" where
  "lines_of r = {startLine r .. endLine r}"

definition gap_before :: "LineRange \<Rightarrow> LineRange \<Rightarrow> bool" where
  "gap_before p n \<longleftrightarrow> endLine p + 2 < startLine n"

definition well_formed :: "LineRange \<Rightarrow> bool" where
  "well_formed r \<longleftrightarrow> startLine r \<le> endLine r"

definition merge_inv :: "LineRange list \<Rightarrow> LineRange list \<Rightarrow> bool" where
  "merge_inv ps acc \<longleftrightarrow>
     sorted_wrt gap_before acc \<and>
     sorted (map startLine acc) \<and>
     startLine ` set acc \<subseteq> startLine ` set ps \<and>
     (\<Union>p\<in>set ps. lines_of p) \<subseteq> (\<Union>a\<in>set acc. lines_of a) \<and>
     ((\<forall>p\<in>set ps. well_formed p) \<longrightarrow> (\<forall>a\<in>set acc. well_formed a))"

text \<open>
  A separator line for an id; whether a separator matches somewhere in a string; a chunk of
  buffer text that holds no separator and ends a line, so that the separator after it is on
  a line of its own; an id the pattern can capture. A buffer is a preamble followed by
  segments, each a separator line and a chunk; \<open>chunks_ok\<close> asks every chunk but the last
  to be clean and the last to hold no separator.
\<close>

definition sep_line :: "string \<Rightarrow> string" where
  "sep_line rid = sep_open @ rid @ sep_close @ [LF]"

fun has_sep :: "string \<Rightarrow> bool" where
  "has_sep [] = False"
| "has_sep (c # cs) = (match_sep (c # cs) \<noteq> None \<or> has_sep cs)"

definition clean :: "string \<Rightarrow> bool" where
  "clean s \<longleftrightarrow> \<not> has_sep s \<and> (s = [] \<or> last s = LF)"

definition valid_id :: "string \<Rightarrow> bool" where
  "valid_id rid \<longleftrightarrow> (\<exists>ds. ds \<noteq> [] \<and> (\<forall>d\<in>set ds. is_digit d) \<and> rid = ''region_'' @ ds)"

fun seg_text :: "string \<times> string \<Rightarrow> string" where
  "seg_text (rid, code) = sep_line rid @ code"

fun seg_parts :: "string \<times> string \<Rightarrow> string list" where
  "seg_parts (rid, code) = [rid, code]"

fun chunks_ok :: "string list \<Rightarrow> bool" where
  "chunks_ok [] = True"
| "chunks_ok [c] = (\<not> has_sep c)"
| "chunks_ok (c # c' # cs) = (clean c \<and> chunks_ok (c' # cs))"



definition read_nat :: "string \<Rightarrow> nat" where
  "read_nat ds = foldl (\<lambda>a d. 10 * a + (of_char d - 48)) 0 ds"

text \<open>The line counts the shift calculus computes for a region.\<close>

definition newCodeLineCount :: "(string \<times> string) list \<Rightarrow> RegionMapping \<Rightarrow> int" where
  "newCodeLineCount parsedCodeBlocks region =
     (case map_of parsedCodeBlocks (id_region region) of
        Some newCode \<Rightarrow> int (length (splitEol [] newCode))
      | None \<Rightarrow> 0)"

definition oldLineCount :: "RegionMapping \<Rightarrow> int" where
  "oldLineCount region = (endLine (originalRange region) - startLine (originalRange region)) + 1"

definition projr_opt :: "'e + 'a \<Rightarrow> 'a option" where
  "projr_opt x = (case x of Inl e \<Rightarrow> None | Inr v \<Rightarrow> Some v)"

text \<open>A symbol whose range contains a line.\<close>

definition encloses :: "DocumentSymbol \<Rightarrow> int \<Rightarrow> bool" where
  "encloses symbol targetLine \<longleftrightarrow>
     startLine (symRange symbol) \<le> targetLine \<and> endLine (symRange symbol) \<ge> targetLine"

text \<open>
  The path of the search for a line: the first symbol of the list enclosing the line, then
  the first of its children enclosing the line, and so on downwards. The containers of a
  path are its symbols of a valid kind, and the boundary of a path is its innermost
  container, or its outermost symbol when it holds no container.
\<close>

fun enclosing_path :: "DocumentSymbol list \<Rightarrow> int \<Rightarrow> DocumentSymbol list" where
  "enclosing_path [] targetLine = []"
| "enclosing_path (DocumentSymbol k r cs # symbols) targetLine =
     (if encloses (DocumentSymbol k r cs) targetLine
      then DocumentSymbol k r cs # enclosing_path cs targetLine
      else enclosing_path symbols targetLine)"

definition containers :: "DocumentSymbol list \<Rightarrow> DocumentSymbol list" where
  "containers path = filter (\<lambda>s. kind s \<in> set validContainers) path"

definition boundary :: "DocumentSymbol list \<Rightarrow> DocumentSymbol option" where
  "boundary path =
     (case path of
        [] \<Rightarrow> None
      | outer # inner \<Rightarrow> Some (if containers path = [] then outer else last (containers path)))"

text \<open>The world with the busy flag of a session set, and what a cycle logs for its outcome.\<close>

definition busy :: "nat \<Rightarrow> world \<Rightarrow> world" where
  "busy a w = w\<lparr>sessions := (sessions w)(a := (sessions w a)\<lparr>mutex := True\<rparr>)\<rparr>"

definition sync_messages :: "js_error option \<Rightarrow> message list" where
  "sync_messages err = (case err of Some e \<Rightarrow> [SyncError e] | None \<Rightarrow> [])"

section \<open>A reference Document Store and example worlds\<close>

text \<open>
  \<open>lineStore\<close> applies an edit made of replacements of whole lines, given in ascending
  order without overlap, and rejects any other edit. It stands for the editor in the
  examples; the general statements hold for every Document Store.
\<close>

fun replaceLines :: "string list \<Rightarrow> Replace list \<Rightarrow> string list option" where
  "replaceLines ls [] = Some ls"
| "replaceLines ls (e # es) =
     (case replaceLines ls es of
        None \<Rightarrow> None
      | Some ls' \<Rightarrow>
          (case newText e of
             None \<Rightarrow> None
           | Some t \<Rightarrow>
               if 0 \<le> rStartLine e \<and> rStartLine e \<le> rEndLine e \<and> rEndLine e < int (length ls)
                  \<and> rStartChar e = 0 \<and> rEndChar e = int (length (ls ! nat (rEndLine e)))
                  \<and> (es = [] \<or> rEndLine e < rStartLine (hd es))
               then Some (take (nat (rStartLine e)) ls' @ splitEol [] t @ drop (nat (rEndLine e) + 1) ls')
               else None))"

definition lineStore :: documentStore where
  "lineStore uri doc edit = map_option (\<lambda>ls. doc\<lparr>docLines := ls\<rparr>) (replaceLines (docLines doc) edit)"

text \<open>
  The scenario of two regions \<open>[0,5]\<close> and \<open>[10,18]\<close> in a file of twenty lines, with the
  first region cut to three lines in the buffer.
\<close>

definition example_doc :: TextDocument where
  "example_doc = \<lparr>docLines =
      [''function f() {'', ''  one();'', ''  two();'', ''  three();'', ''  four();'', ''}'',
       [], ''// gap'', ''// gap'', [],
       ''function g() {'', ''  a();'', ''  b();'', ''  c();'', ''  d();'', ''  e();'', ''  f();'',
       ''  return 1;'', ''}'', ''// end''],
      docEol = [LF]\<rparr>"

definition example_buffer :: string where
  "example_buffer =
     sep_line ''region_0'' @ ''function f() {'' @ [LF] @ ''  one();'' @ [LF] @ ''}'' @ [LF, LF] @
     sep_line ''region_1'' @ ''function g() {'' @ [LF] @ ''  a();'' @ [LF] @ ''  b();'' @ [LF] @
       ''  c();'' @ [LF] @ ''  d();'' @ [LF] @ ''  e();'' @ [LF] @ ''  f();'' @ [LF] @
       ''  return 1;'' @ [LF] @ ''}'' @ [LF, LF]"

definition example_session :: SandboxMapping where
  "example_session =
     \<lparr>originalUri = ''file:///a.ts'',
      regions =
        [\<lparr>id_region = ''region_0'', originalRange = \<lparr>startLine = 0, endLine = 5\<rparr>,
          originalContent = ''function f() {'' @ [LF] @ ''  one();'' @ [LF] @ ''  two();'' @ [LF] @
            ''  three();'' @ [LF] @ ''  four();'' @ [LF] @ ''}''\<rparr>,
         \<lparr>id_region = ''region_1'', originalRange = \<lparr>startLine = 10, endLine = 18\<rparr>,
          originalContent = ''function g() {'' @ [LF] @ ''  a();'' @ [LF] @ ''  b();'' @ [LF] @
            ''  c();'' @ [LF] @ ''  d();'' @ [LF] @ ''  e();'' @ [LF] @ ''  f();'' @ [LF] @
            ''  return 1;'' @ [LF] @ ''}''\<rparr>],
      isLive = True, debounce = None, backupUri = None, mutex = False\<rparr>"

definition example_world :: world where
  "example_world =
     \<lparr>sandboxMap = [''untitled:Untitled-1'' \<mapsto> 0],
      sessions = (\<lambda>a. example_session),
      nextSession = 1,
      timers = Map.empty,
      nextTimer = 0,
      buffers = (\<lambda>k. example_buffer),
      docs = [''file:///a.ts'' \<mapsto> example_doc],
      backups = Map.empty,
      submitted = [],
      saved = [],
      messages = []\<rparr>"

text \<open>A file whose first line is a separator line, and the region and buffer sliced from it.\<close>

definition cex_doc :: TextDocument where
  "cex_doc = \<lparr>docLines = [sep_open @ ''region_5'' @ sep_close, ''x''], docEol = [LF]\<rparr>"

definition cex_region :: RegionMapping where
  "cex_region = \<lparr>id_region = ''region_0'', originalRange = \<lparr>startLine = 0, endLine = 1\<rparr>,
                  originalContent = sep_line ''region_5'' @ ''x''\<rparr>"

definition cex_text :: string where
  "cex_text = sep_line ''region_0'' @ sep_line ''region_5'' @ ''x'' @ [LF, LF]"

text \<open>
  A file of three lines with the regions \<open>[0,0]\<close> and \<open>[2,2]\<close>, and buffers for it: as
  rendered, with the second separator deleted, renamed to an unknown id, or duplicated, and
  with the first region edited. \<open>nested_text\<close> is a buffer whose second chunk holds a
  separator line of its own, with the separator of the second region deleted.
\<close>

definition witness_doc :: TextDocument where
  "witness_doc = \<lparr>docLines = [''a'', ''b'', ''c''], docEol = [LF]\<rparr>"

definition witness_regions :: "RegionMapping list" where
  "witness_regions =
     [\<lparr>id_region = ''region_0'', originalRange = \<lparr>startLine = 0, endLine = 0\<rparr>, originalContent = ''a''\<rparr>,
      \<lparr>id_region = ''region_1'', originalRange = \<lparr>startLine = 2, endLine = 2\<rparr>, originalContent = ''c''\<rparr>]"

definition witness_text :: string where
  "witness_text = sep_line ''region_0'' @ ''a'' @ [LF, LF] @ sep_line ''region_1'' @ ''c'' @ [LF, LF]"

definition witness_session :: SandboxMapping where
  "witness_session =
     \<lparr>originalUri = ''file:///w.ts'', regions = witness_regions, isLive = True,
      debounce = None, backupUri = None, mutex = False\<rparr>"

definition witness_world :: "string \<Rightarrow> world" where
  "witness_world sandboxText =
     \<lparr>sandboxMap = [''untitled:Untitled-1'' \<mapsto> 0],
      sessions = (\<lambda>a. witness_session),
      nextSession = 1,
      timers = Map.empty,
      nextTimer = 0,
      buffers = (\<lambda>k. sandboxText),
      docs = [''file:///w.ts'' \<mapsto> witness_doc],
      backups = Map.empty,
      submitted = [],
      saved = [],
      messages = []\<rparr>"

definition deleted_text :: string where
  "deleted_text = sep_line ''region_0'' @ ''a'' @ [LF, LF] @ ''c'' @ [LF, LF]"

definition unknown_id_text :: string where
  "unknown_id_text = sep_line ''region_0'' @ ''a'' @ [LF, LF] @ sep_line ''region_7'' @ ''c'' @ [LF, LF]"

definition duplicate_id_text :: string where
  "duplicate_id_text =
     sep_line ''region_0'' @ ''a'' @ [LF, LF] @ sep_line ''region_1'' @ ''b'' @ [LF, LF] @
     sep_line ''region_1'' @ ''c'' @ [LF, LF]"


definition edited_text :: string where
  "edited_text = sep_line ''region_0'' @ ''A'' @ [LF, LF] @ sep_line ''region_1'' @ ''c'' @ [LF, LF]"

definition stale_text :: string where
  "stale_text = sep_line ''region_0'' @ ''Z'' @ [LF, LF] @ sep_line ''region_1'' @ ''c'' @ [LF, LF]"

text \<open>
  \<open>synced_world\<close>: the live session after one edit and its sync. \<open>pending_world\<close>: a
  second edit has scheduled timer 1, which has not fired. \<open>idle_world\<close>: the buffer was
  edited with live sync off. \<open>blank_world\<close>: no session yet.
\<close>

definition synced_world :: world where
  "synced_world =
     timerFires lineStore 0 (userEdit ''untitled:Untitled-1'' edited_text (witness_world witness_text))"

definition pending_world :: world where
  "pending_world = userEdit ''untitled:Untitled-1'' stale_text synced_world"

definition idle_world :: world where
  "idle_world = (witness_world edited_text)\<lparr>sessions := (\<lambda>a. witness_session\<lparr>isLive := False\<rparr>)\<rparr>"

definition blank_world :: world where
  "blank_world =
     \<lparr>sandboxMap = Map.empty,
      sessions = (\<lambda>a. \<lparr>originalUri = [], regions = [], isLive = False, debounce = None,
                       backupUri = None, mutex = False\<rparr>),
      nextSession = 0,
      timers = Map.empty,
      nextTimer = 0,
      buffers = (\<lambda>k. []),
      docs = [''file:///w.ts'' \<mapsto> witness_doc],
      backups = Map.empty,
      submitted = [],
      saved = [],
      messages = []\<rparr>"

text \<open>
  \<open>edited_world\<close>: the live session after one edit, with timer 0 pending.
  \<open>suspended_world\<close>: timer 0 has fired and its callback is suspended at the first
  \<open>await\<close> of the write-back. \<open>broken_world\<close>: the live session after an edit that
  removed the second delimiter line.
\<close>

definition edited_world :: world where
  "edited_world = userEdit ''untitled:Untitled-1'' edited_text (witness_world witness_text)"

definition suspended_world :: world where
  "suspended_world =
     fst (callbackStart 0 ''untitled:Untitled-1''
            (edited_world\<lparr>timers := (timers edited_world)(0 := None)\<rparr>))"

definition broken_world :: world where
  "broken_world = userEdit ''untitled:Untitled-1'' deleted_text (witness_world witness_text)"

text \<open>Definitions unfolded together when an example is evaluated.\<close>

lemmas grammar_defs =
  sep_line_def sep_open_def sep_close_def scissors_def match_sep_def match_eol_def is_digit_def
  blank_tails_def parseSandboxText_def

lemmas store_defs =
  lineAt_def lineCount_def mkReplace_def mkPosition_def isBefore_def lineStore_def

lemmas doc_defs =
  regionContent_def mkPosition_def offsetAt_def validatePosition_def lineAt_def lineCount_def
  substring_def getText_def renderRegion_def regionId_def show_nat.simps digit_char_def

lemmas world_defs =
  witness_world_def witness_session_def witness_regions_def witness_doc_def

lemmas cycle_defs =
  timerFires_def timerCallback_unfold userEdit_def changeListener_def
  applySandboxSegmentsToOriginal_unfold discardSandboxCmd_def applySandboxCmd_def

section \<open>Merging candidate ranges\<close>

lemma merge_inv_Nil: "merge_inv [] []"
  by (simp add: merge_inv_def)

lemma in_butlast: "a \<in> set acc \<Longrightarrow> a \<noteq> last acc \<Longrightarrow> a \<in> set (butlast acc)"
  by (induction acc) (auto split: if_splits)

lemma merge_inv_starts:
  "merge_inv ps acc \<Longrightarrow> \<forall>p\<in>set ps. startLine p \<le> q \<Longrightarrow> a \<in> set acc \<Longrightarrow> startLine a \<le> q"
proof -
  assume inv: "merge_inv ps acc" and le: "\<forall>p\<in>set ps. startLine p \<le> q" and a: "a \<in> set acc"
  from inv have "startLine ` set acc \<subseteq> startLine ` set ps"
    by (simp add: merge_inv_def)
  with a obtain p where "p \<in> set ps" "startLine a = startLine p"
    by blast
  with le show ?thesis by simp
qed

lemma merge_inv_push:
  assumes inv: "merge_inv ps acc"
    and le: "\<forall>p\<in>set ps. startLine p \<le> startLine r"
    and far: "acc \<noteq> [] \<Longrightarrow> endLine (last acc) + 2 < startLine r"
  shows "merge_inv (ps @ [r]) (acc @ [r])"
proof -
  have starts: "\<forall>a\<in>set acc. startLine a \<le> startLine r"
    using merge_inv_starts [OF inv le] by blast
  have gaps: "\<forall>a\<in>set acc. gap_before a r"
  proof
    fix a assume a: "a \<in> set acc"
    then have ne: "acc \<noteq> []" by auto
    show "gap_before a r"
    proof (cases "a = last acc")
      case True
      then show ?thesis using far [OF ne] by (simp add: gap_before_def)
    next
      case False
      with a have "a \<in> set (butlast acc)"
        by (rule in_butlast)
      moreover have "sorted_wrt gap_before (butlast acc @ [last acc])"
        using inv ne by (simp add: merge_inv_def)
      ultimately have "gap_before a (last acc)"
        by (simp add: sorted_wrt_append)
      moreover have "startLine (last acc) \<le> startLine r"
        using starts ne by simp
      ultimately show ?thesis by (simp add: gap_before_def)
    qed
  qed
  have 1: "sorted_wrt gap_before (acc @ [r])"
    using inv gaps by (simp add: merge_inv_def sorted_wrt_append)
  have 2: "sorted (map startLine (acc @ [r]))"
    using inv starts by (simp add: merge_inv_def sorted_append)
  have 3: "startLine ` set (acc @ [r]) \<subseteq> startLine ` set (ps @ [r])"
    using inv by (auto simp: merge_inv_def)
  have 4: "(\<Union>p\<in>set (ps @ [r]). lines_of p) \<subseteq> (\<Union>a\<in>set (acc @ [r]). lines_of a)"
    using inv by (auto simp: merge_inv_def)
  have 5: "(\<forall>p\<in>set (ps @ [r]). well_formed p) \<longrightarrow> (\<forall>a\<in>set (acc @ [r]). well_formed a)"
    using inv by (auto simp: merge_inv_def)
  show ?thesis
    unfolding merge_inv_def using 1 2 3 4 5 by blast
qed

lemma merge_inv_extend:
  assumes inv: "merge_inv ps acc"
    and ne: "acc \<noteq> []"
    and le: "\<forall>p\<in>set ps. startLine p \<le> startLine r"
    and near: "startLine r \<le> endLine (last acc) + 2"
  shows "merge_inv (ps @ [r])
           (butlast acc @ [(last acc)\<lparr>endLine := max (endLine (last acc)) (endLine r)\<rparr>])"
proof -
  define l where "l = last acc"
  define b where "b = butlast acc"
  define l' where "l' = l\<lparr>endLine := max (endLine l) (endLine r)\<rparr>"
  have acc: "acc = b @ [l]"
    using ne by (simp add: l_def b_def)
  have s': "startLine l' = startLine l" and e': "endLine l' = max (endLine l) (endLine r)"
    by (simp_all add: l'_def)
  have "l \<in> set acc"
    by (simp add: acc)
  then have lr: "startLine l \<le> startLine r"
    by (rule merge_inv_starts [OF inv le])
  have gb: "\<And>a. gap_before a l' = gap_before a l"
    by (simp add: gap_before_def s')
  have cover_l: "lines_of l \<subseteq> lines_of l'"
    by (auto simp: lines_of_def s' e')
  have cover_r: "lines_of r \<subseteq> lines_of l'"
    using lr near by (auto simp: lines_of_def s' e' l_def)
  have wf: "well_formed l \<Longrightarrow> well_formed l'"
    by (auto simp: well_formed_def s' e')
  have i1: "sorted_wrt gap_before (b @ [l])"
    and i2: "sorted (map startLine (b @ [l]))"
    and i3: "startLine ` set (b @ [l]) \<subseteq> startLine ` set ps"
    and i4: "(\<Union>p\<in>set ps. lines_of p) \<subseteq> (\<Union>a\<in>set (b @ [l]). lines_of a)"
    and i5: "(\<forall>p\<in>set ps. well_formed p) \<longrightarrow> (\<forall>a\<in>set (b @ [l]). well_formed a)"
    using inv unfolding merge_inv_def acc by blast+
  have 1: "sorted_wrt gap_before (b @ [l'])"
    using i1 by (simp add: sorted_wrt_append gb)
  have 2: "sorted (map startLine (b @ [l']))"
    using i2 by (simp add: sorted_append s')
  have 3: "startLine ` set (b @ [l']) \<subseteq> startLine ` set (ps @ [r])"
    using i3 by (auto simp: s')
  have "(\<Union>a\<in>set (b @ [l]). lines_of a) \<subseteq> (\<Union>a\<in>set (b @ [l']). lines_of a)"
    using cover_l by auto
  with i4 have "(\<Union>p\<in>set ps. lines_of p) \<subseteq> (\<Union>a\<in>set (b @ [l']). lines_of a)"
    by (rule subset_trans)
  moreover have "lines_of r \<subseteq> (\<Union>a\<in>set (b @ [l']). lines_of a)"
    using cover_r by auto
  ultimately have 4: "(\<Union>p\<in>set (ps @ [r]). lines_of p) \<subseteq> (\<Union>a\<in>set (b @ [l']). lines_of a)"
    by auto
  have 5: "(\<forall>p\<in>set (ps @ [r]). well_formed p) \<longrightarrow> (\<forall>a\<in>set (b @ [l']). well_formed a)"
    using i5 wf by auto
  show ?thesis
    unfolding merge_inv_def b_def [symmetric] l_def [symmetric] l'_def [symmetric]
    using 1 2 3 4 5 by blast
qed

lemma merge_inv_step:
  assumes "merge_inv ps acc" and "\<forall>p\<in>set ps. startLine p \<le> startLine r"
  shows "merge_inv (ps @ [r]) (merge_step acc r)"
proof (cases "acc = []")
  case True
  then show ?thesis
    using merge_inv_push [OF assms] by (simp add: merge_step_def)
next
  case False
  show ?thesis
  proof (cases "startLine r \<le> endLine (last acc) + 2")
    case True
    then show ?thesis
      using merge_inv_extend [OF assms(1) False assms(2)] False
      by (simp add: merge_step_def Let_def)
  next
    case False
    then show ?thesis
      using merge_inv_push [OF assms] \<open>acc \<noteq> []\<close>
      by (simp add: merge_step_def Let_def)
  qed
qed

lemma merge_inv_foldl:
  "sorted (map startLine ps) \<Longrightarrow> merge_inv ps (foldl merge_step [] ps)"
proof (induction ps rule: rev_induct)
  case Nil
  show ?case by (simp add: merge_inv_Nil)
next
  case (snoc r ps)
  then have "merge_inv ps (foldl merge_step [] ps)"
    and "\<forall>p\<in>set ps. startLine p \<le> startLine r"
    by (auto simp: sorted_append)
  then show ?case
    using merge_inv_step by simp
qed

lemma merge_inv_mergeRanges: "merge_inv (sort_key startLine ranges) (mergeRanges ranges)"
  unfolding mergeRanges_def by (rule merge_inv_foldl) simp

lemma strict_starts:
  assumes "sorted_wrt gap_before acc" and "\<forall>a\<in>set acc. well_formed a"
  shows "sorted_wrt (\<lambda>p n. startLine p < startLine n) acc"
  using assms
  by (induction acc) (auto simp: gap_before_def well_formed_def)

text \<open>
  Claim C4. For every list of candidate ranges, the ranges produced by sorting on the start
  line and merging with the gap threshold of two lines are in ascending order with more
  than the gap threshold between the end of a range and the start of every later one, and
  every line of every input range lies in some merged range. When every input range is
  well formed (its start is not after its end), the merged ranges are well formed and their
  start lines are strictly ascending.
\<close>

theorem mergeRanges_correct:
  "sorted_wrt gap_before (mergeRanges ranges) \<and>
   sorted (map startLine (mergeRanges ranges)) \<and>
   (\<Union>r\<in>set ranges. lines_of r) \<subseteq> (\<Union>m\<in>set (mergeRanges ranges). lines_of m) \<and>
   ((\<forall>r\<in>set ranges. well_formed r) \<longrightarrow>
      (\<forall>m\<in>set (mergeRanges ranges). well_formed m) \<and>
      sorted_wrt (\<lambda>p n. startLine p < startLine n) (mergeRanges ranges))"
proof -
  let ?ms = "mergeRanges ranges"
  have inv: "merge_inv (sort_key startLine ranges) ?ms"
    by (rule merge_inv_mergeRanges)
  then have 1: "sorted_wrt gap_before ?ms" and 2: "sorted (map startLine ?ms)"
    by (simp_all add: merge_inv_def)
  from inv have "(\<Union>p\<in>set (sort_key startLine ranges). lines_of p) \<subseteq> (\<Union>a\<in>set ?ms. lines_of a)"
    unfolding merge_inv_def by blast
  then have 3: "(\<Union>r\<in>set ranges. lines_of r) \<subseteq> (\<Union>m\<in>set ?ms. lines_of m)"
    by simp
  have 4: "(\<forall>m\<in>set ?ms. well_formed m) \<and> sorted_wrt (\<lambda>p n. startLine p < startLine n) ?ms"
    if wf: "\<forall>r\<in>set ranges. well_formed r"
  proof -
    from inv have "(\<forall>p\<in>set (sort_key startLine ranges). well_formed p) \<longrightarrow> (\<forall>a\<in>set ?ms. well_formed a)"
      unfolding merge_inv_def by blast
    with wf have "\<forall>m\<in>set ?ms. well_formed m" by simp
    with 1 show ?thesis using strict_starts by blast
  qed
  show ?thesis using 1 2 3 4 by blast
qed

theorem mergeRanges_correct_witness:
  "well_formed \<lparr>startLine = 10, endLine = 18\<rparr> \<and> well_formed \<lparr>startLine = 0, endLine = 5\<rparr> \<and>
   well_formed \<lparr>startLine = 7, endLine = 8\<rparr> \<and> well_formed \<lparr>startLine = 30, endLine = 31\<rparr> \<and>
   mergeRanges [\<lparr>startLine = 10, endLine = 18\<rparr>, \<lparr>startLine = 0, endLine = 5\<rparr>, \<lparr>startLine = 7, endLine = 8\<rparr>,
       \<lparr>startLine = 30, endLine = 31\<rparr>]
     = [\<lparr>startLine = 0, endLine = 18\<rparr>, \<lparr>startLine = 30, endLine = 31\<rparr>] \<and>
   sorted_wrt (\<lambda>p n. startLine p < startLine n)
     (mergeRanges [\<lparr>startLine = 10, endLine = 18\<rparr>, \<lparr>startLine = 0, endLine = 5\<rparr>, \<lparr>startLine = 7, endLine = 8\<rparr>,
       \<lparr>startLine = 30, endLine = 31\<rparr>])"
  using mergeRanges_correct [of "[\<lparr>startLine = 10, endLine = 18\<rparr>, \<lparr>startLine = 0, endLine = 5\<rparr>,
      \<lparr>startLine = 7, endLine = 8\<rparr>, \<lparr>startLine = 30, endLine = 31\<rparr>]"]
  by (simp add: well_formed_def mergeRanges_def merge_step_def)

section \<open>The separator grammar\<close>

subsection \<open>Where a separator can match\<close>

lemma LF_notin_sep_open: "LF \<notin> set sep_open"
  by (simp add: sep_open_def scissors_def)

lemma LF_notin_sep_close: "LF \<notin> set sep_close"
  by (simp add: sep_close_def scissors_def)

lemma not_digit_LF: "\<not> is_digit LF"
  by (simp add: is_digit_def)

lemma sep_close_Cons: "sep_close = CHR '' '' # tl sep_close"
  by (simp add: sep_close_def)

lemma not_digit_space: "\<not> is_digit (CHR '' '')"
  by (simp add: is_digit_def)

lemma takeWhile_sep_close [simp]: "takeWhile is_digit (sep_close @ r) = []"
  by (subst sep_close_Cons) (simp add: not_digit_space)

lemma dropWhile_sep_close [simp]: "dropWhile is_digit (sep_close @ r) = sep_close @ r"
  by (subst sep_close_Cons, subst (2) sep_close_Cons) (simp add: not_digit_space)

lemma match_eol_iff: "match_eol s = Some r \<longleftrightarrow> s = [CR, LF] @ r \<or> s = [LF] @ r"
  by (auto simp: match_eol_def strip_prefix_Some split: option.splits)

lemma match_sepD:
  assumes "match_sep s = Some (rid, r)"
  shows "\<exists>ds cr. ds \<noteq> [] \<and> (\<forall>d\<in>set ds. is_digit d) \<and> (cr = [] \<or> cr = [CR]) \<and>
           rid = ''region_'' @ ds \<and> s = sep_open @ ''region_'' @ ds @ sep_close @ cr @ [LF] @ r"
proof -
  from assms obtain s1 s3 where s: "s = (sep_open @ ''region_'') @ s1"
    and ne: "takeWhile is_digit s1 \<noteq> []"
    and s3: "dropWhile is_digit s1 = sep_close @ s3"
    and r: "match_eol s3 = Some r"
    and rid: "rid = ''region_'' @ takeWhile is_digit s1"
    by (auto simp: match_sep_def Let_def strip_prefix_Some split: option.splits if_splits)
  define ds where "ds = takeWhile is_digit s1"
  have s1: "s1 = ds @ sep_close @ s3"
    using takeWhile_dropWhile_id [of is_digit s1] s3 by (simp add: ds_def)
  have dig: "\<forall>d\<in>set ds. is_digit d"
    unfolding ds_def by (auto dest: set_takeWhileD)
  from r have "s3 = [CR] @ [LF] @ r \<or> s3 = [] @ [LF] @ r"
    by (simp add: match_eol_iff)
  then obtain cr where "cr = [] \<or> cr = [CR]" and "s3 = cr @ [LF] @ r"
    by blast
  with s s1 dig ne rid show ?thesis
    unfolding ds_def [symmetric] by (intro exI [of _ ds] exI [of _ cr]) simp
qed

lemma match_sepI:
  assumes "ds \<noteq> []" and "\<forall>d\<in>set ds. is_digit d" and "cr = [] \<or> cr = [CR]"
  shows "match_sep (sep_open @ ''region_'' @ ds @ sep_close @ cr @ [LF] @ r) = Some (''region_'' @ ds, r)"
proof -
  have "strip_prefix (sep_open @ ''region_'') (sep_open @ ''region_'' @ ds @ sep_close @ cr @ [LF] @ r)
          = Some (ds @ sep_close @ cr @ [LF] @ r)"
    by (simp add: strip_prefix_Some)
  moreover have "match_eol (cr @ [LF] @ r) = Some r"
    using assms(3) by (auto simp: match_eol_iff)
  ultimately show ?thesis
    using assms(1,2) by (simp add: match_sep_def Let_def takeWhile_append2 dropWhile_append2)
qed

lemma match_sep_sep_line:
  "valid_id rid \<Longrightarrow> match_sep (sep_line rid @ r) = Some (rid, r)"
  using match_sepI [where cr = "[]"] by (auto simp: valid_id_def sep_line_def)

text \<open>A separator match holds exactly one line feed, its last character.\<close>

lemma sep_text_LF:
  assumes "\<forall>d\<in>set ds. is_digit d" and "cr = [] \<or> cr = [CR]"
  shows "LF \<notin> set (sep_open @ ''region_'' @ ds @ sep_close @ cr)"
  using assms LF_notin_sep_open LF_notin_sep_close not_digit_LF by auto

lemma prefix_upto_LF:
  assumes "LF \<notin> set m" and "m @ [LF] @ r = t @ rest" and "t \<noteq> []" and "last t = LF"
  shows "\<exists>z. t = m @ [LF] @ z"
proof -
  from assms(2) consider z where "m @ [LF] = t @ z" | z where "t = (m @ [LF]) @ z"
    by (auto simp: append_eq_append_conv2 append_eq_Cons_conv Cons_eq_append_conv)
  then show ?thesis
  proof cases
    case 1
    from assms(3,4) obtain t' where t: "t = t' @ [LF]"
      by (metis append_butlast_last_id)
    with 1 have "m @ [LF] = t' @ LF # z" by simp
    with assms(1) have "z = []"
      by (metis Un_iff append_eq_append_conv2 butlast.simps(2) butlast_append butlast_snoc in_set_conv_decomp list.set_intros(1) set_append)
    with 1 show ?thesis by auto
  next
    case 2
    then show ?thesis by simp
  qed
qed

lemma no_straddle:
  assumes "match_sep (t @ rest) = Some (rid, r)" and "t \<noteq> []" and "last t = LF"
  shows "\<exists>z. match_sep t = Some (rid, z)"
proof -
  from match_sepD [OF assms(1)] obtain ds cr where ds: "ds \<noteq> []" "\<forall>d\<in>set ds. is_digit d"
    and cr: "cr = [] \<or> cr = [CR]" and rid: "rid = ''region_'' @ ds"
    and eq: "t @ rest = sep_open @ ''region_'' @ ds @ sep_close @ cr @ [LF] @ r"
    by blast
  let ?m = "sep_open @ ''region_'' @ ds @ sep_close @ cr"
  have "LF \<notin> set ?m" using ds(2) cr by (rule sep_text_LF)
  moreover have "?m @ [LF] @ r = t @ rest" using eq by simp
  ultimately obtain z where "t = ?m @ [LF] @ z"
    using assms(2,3) prefix_upto_LF by blast
  then have "t = sep_open @ ''region_'' @ ds @ sep_close @ cr @ [LF] @ z" by simp
  then show ?thesis
    using match_sepI [OF ds cr, of z] rid by auto
qed

subsection \<open>Splitting a buffer of clean chunks\<close>

lemma match_sep_Nil [simp]: "match_sep [] = None"
  by (simp add: match_sep_def sep_open_def)

lemma has_sep_iff: "has_sep s \<longleftrightarrow> (\<exists>u t. s = u @ t \<and> match_sep t \<noteq> None)"
proof (induction s)
  case Nil
  show ?case by simp
next
  case (Cons c s)
  show ?case
  proof
    assume "has_sep (c # s)"
    then consider "match_sep (c # s) \<noteq> None" | "has_sep s" by auto
    then show "\<exists>u t. c # s = u @ t \<and> match_sep t \<noteq> None"
    proof cases
      case 1
      then show ?thesis by (intro exI [of _ "[]"] exI [of _ "c # s"]) simp
    next
      case 2
      with Cons.IH obtain u t where "s = u @ t" "match_sep t \<noteq> None" by blast
      then show ?thesis by (intro exI [of _ "c # u"] exI [of _ t]) simp
    qed
  next
    assume "\<exists>u t. c # s = u @ t \<and> match_sep t \<noteq> None"
    then obtain u t where ut: "c # s = u @ t" and m: "match_sep t \<noteq> None" by blast
    show "has_sep (c # s)"
    proof (cases u)
      case Nil
      with ut have "t = c # s" by simp
      with m show ?thesis by auto
    next
      case (Cons d u')
      with ut have "s = u' @ t" by simp
      with m Cons.IH have "has_sep s" by blast
      then show ?thesis by simp
    qed
  qed
qed

lemma clean_no_match:
  assumes "clean pre" and "pre = u @ t" and "t \<noteq> []"
  shows "match_sep (t @ rest) = None"
proof (rule ccontr)
  assume "match_sep (t @ rest) \<noteq> None"
  then obtain rid r where "match_sep (t @ rest) = Some (rid, r)" by auto
  moreover have "last t = LF" using assms by (auto simp: clean_def)
  ultimately obtain z where "match_sep t = Some (rid, z)"
    using no_straddle assms(3) by blast
  then have "has_sep pre" using assms(2) has_sep_iff by blast
  with assms(1) show False by (simp add: clean_def)
qed

lemma split_sep_skip:
  assumes "\<And>u t. pre = u @ t \<Longrightarrow> t \<noteq> [] \<Longrightarrow> match_sep (t @ rest) = None"
  shows "split_sep acc (pre @ rest) = split_sep (rev pre @ acc) rest"
  using assms
proof (induction pre arbitrary: acc)
  case Nil
  show ?case by simp
next
  case (Cons c pre)
  have "match_sep ((c # pre) @ rest) = None"
    using Cons.prems [of "[]" "c # pre"] by simp
  then have "split_sep acc ((c # pre) @ rest) = split_sep (c # acc) (pre @ rest)"
    by simp
  also have "\<dots> = split_sep (rev pre @ c # acc) rest"
  proof (rule Cons.IH)
    fix u t assume "pre = u @ t" and "t \<noteq> []"
    then show "match_sep (t @ rest) = None"
      using Cons.prems [of "c # u" t] by simp
  qed
  finally show ?case by simp
qed

lemma split_sep_clean:
  "clean pre \<Longrightarrow> split_sep acc (pre @ rest) = split_sep (rev pre @ acc) rest"
  by (rule split_sep_skip) (rule clean_no_match)

lemma sep_line_Cons: "sep_line rid @ rest = CHR ''/'' # tl (sep_line rid @ rest)"
  by (simp add: sep_line_def sep_open_def)

lemma split_sep_at_sep:
  assumes "valid_id rid"
  shows "split_sep acc (sep_line rid @ rest) = rev acc # rid # split_sep [] rest"
proof -
  obtain cs where eq: "sep_line rid @ rest = CHR ''/'' # cs"
    using sep_line_Cons by blast
  have "match_sep (CHR ''/'' # cs) = Some (rid, rest)"
    using match_sep_sep_line [OF assms, of rest] by (simp add: eq)
  then show ?thesis
    unfolding eq by simp
qed

subsection \<open>The parsed blocks\<close>

lemma odd_length_split_sep: "odd (length (split_sep acc s))"
  by (induction acc s rule: split_sep.induct) (auto split: option.splits)

lemma parseCodeBlocks_even:
  "even (length parts) \<Longrightarrow> \<exists>blocks'. parseCodeBlocks parts blocks = Inr blocks'"
  by (induction parts blocks rule: parseCodeBlocks.induct) auto

lemma parseCodeBlocks_pairs:
  "parseCodeBlocks (concat (map seg_parts segs)) blocks
     = Inr (fold (\<lambda>seg. AList.update (fst seg) (stripTrailing (snd seg))) segs blocks)"
  by (induction segs arbitrary: blocks) auto

lemma update_fresh: "k \<notin> fst ` set al \<Longrightarrow> AList.update k v al = al @ [(k, v)]"
  by (induction al) auto

lemma length_update_le: "length (AList.update k v al) \<le> Suc (length al)"
  by (induction al) auto

lemma fold_update_fresh:
  "distinct (map fst segs) \<Longrightarrow> fst ` set segs \<inter> fst ` set blocks = {} \<Longrightarrow>
   fold (\<lambda>seg. AList.update (fst seg) (f (snd seg))) segs blocks
     = blocks @ map (\<lambda>seg. (fst seg, f (snd seg))) segs"
proof (induction segs arbitrary: blocks)
  case Nil
  show ?case by simp
next
  case (Cons seg segs)
  have fresh: "fst seg \<notin> fst ` set blocks"
    using Cons.prems(2) by auto
  have "fst ` set segs \<inter> fst ` set (blocks @ [(fst seg, f (snd seg))]) = {}"
    using Cons.prems by auto
  with Cons.IH [of "blocks @ [(fst seg, f (snd seg))]"] Cons.prems(1) fresh
  show ?case by (simp add: update_fresh)
qed

lemma length_fold_update_le:
  "length (fold (\<lambda>seg. AList.update (fst seg) (f (snd seg))) segs blocks) \<le> length blocks + length segs"
proof (induction segs arbitrary: blocks)
  case Nil
  show ?case by simp
next
  case (Cons seg segs)
  have "length (fold (\<lambda>seg. AList.update (fst seg) (f (snd seg))) segs
                  (AList.update (fst seg) (f (snd seg)) blocks))
          \<le> length (AList.update (fst seg) (f (snd seg)) blocks) + length segs"
    by (rule Cons.IH)
  also have "\<dots> \<le> Suc (length blocks) + length segs"
    using length_update_le [of "fst seg" "f (snd seg)" blocks] by simp
  finally show ?case by simp
qed

lemma stripTrailing_blank:
  "c = [] \<or> last c \<noteq> CR \<Longrightarrow> stripTrailing (c @ [LF, LF]) = c"
proof (induction c)
  case Nil
  show ?case by (simp add: blank_tails_def)
next
  case (Cons x c)
  have "x # c @ [LF, LF] \<notin> blank_tails"
  proof (cases c)
    case Nil
    with Cons.prems show ?thesis by (simp add: blank_tails_def)
  next
    case (Cons y c')
    then show ?thesis
      by (cases c') (auto simp: blank_tails_def)
  qed
  moreover have "c = [] \<or> last c \<noteq> CR"
    using Cons.prems by (auto split: if_splits)
  ultimately show ?case using Cons.IH by simp
qed

lemma stripTrailing_suffix:
  "stripTrailing s = s \<or> (\<exists>t\<in>blank_tails. s = stripTrailing s @ t)"
  by (induction s) auto

section \<open>The shift calculus\<close>

lemma shiftCalculus_closed:
  assumes "shiftCalculus blocks shift rs = (rs', None)" and "i < length rs"
  shows "length rs' = length rs \<and>
         startLine (originalRange (rs' ! i))
           = startLine (originalRange (rs ! i)) + shift
             + (\<Sum>j<i. newCodeLineCount blocks (rs ! j) - oldLineCount (rs ! j)) \<and>
         endLine (originalRange (rs' ! i))
           = startLine (originalRange (rs' ! i)) + newCodeLineCount blocks (rs ! i) - 1 \<and>
         id_region (rs' ! i) = id_region (rs ! i) \<and>
         originalContent (rs' ! i) = originalContent (rs ! i)"
  using assms
proof (induction rs arbitrary: shift rs' i)
  case Nil
  then show ?case by simp
next
  case (Cons r rs)
  from Cons.prems(1) obtain newCode where code: "map_of blocks (id_region r) = Some newCode"
    by (cases "map_of blocks (id_region r)") auto
  define n where "n = int (length (splitEol [] newCode))"
  define shift' where "shift' = shift + (n - oldLineCount r)"
  obtain rest' err where rec: "shiftCalculus blocks shift' rs = (rest', err)"
    by (cases "shiftCalculus blocks shift' rs")
  define r' where "r' = r\<lparr>originalRange :=
      \<lparr>startLine = startLine (originalRange r) + shift,
       endLine = startLine (originalRange r) + shift + n - 1\<rparr>\<rparr>"
  from Cons.prems(1) code rec have rs': "rs' = r' # rest'" and err: "err = None"
    by (simp_all add: Let_def n_def shift'_def oldLineCount_def r'_def)
  have cnt: "newCodeLineCount blocks r = n"
    by (simp add: newCodeLineCount_def code n_def)
  show ?case
  proof (cases i)
    case 0
    have "length rest' = length rs"
    proof (cases rs)
      case Nil
      with rec show ?thesis by simp
    next
      case (Cons x xs)
      then have "0 < length rs" by simp
      from Cons.IH [OF rec [unfolded err] this] show ?thesis by simp
    qed
    with 0 show ?thesis by (simp add: rs' r'_def cnt)
  next
    case (Suc k)
    with Cons.prems(2) have k: "k < length rs" by simp
    note IH = Cons.IH [OF rec [unfolded err] k]
    have "(\<Sum>j<Suc k. newCodeLineCount blocks ((r # rs) ! j) - oldLineCount ((r # rs) ! j))
            = (n - oldLineCount r) + (\<Sum>j<k. newCodeLineCount blocks (rs ! j) - oldLineCount (rs ! j))"
      unfolding sum.lessThan_Suc_shift by (simp add: cnt)
    with IH Suc show ?thesis by (simp add: rs' shift'_def)
  qed
qed

lemma apply_success:
  assumes "applySandboxSegmentsToOriginal store a docKey w = (w', err)"
    and "saved w' \<noteq> saved w"
    and "parseSandboxText (buffers w docKey) = Inr blocks"
  shows "shiftCalculus blocks 0 (regions (sessions w a)) = (regions (sessions w' a), err)"
  using assms unfolding applySandboxSegmentsToOriginal_unfold
  by (auto simp: Let_def split: if_splits option.splits sum.splits prod.splits)

lemma example_parse:
  "parseSandboxText example_buffer =
     Inr [(''region_0'', ''function f() {'' @ [LF] @ ''  one();'' @ [LF] @ ''}''),
          (''region_1'', ''function g() {'' @ [LF] @ ''  a();'' @ [LF] @ ''  b();'' @ [LF] @
            ''  c();'' @ [LF] @ ''  d();'' @ [LF] @ ''  e();'' @ [LF] @ ''  f();'' @ [LF] @
            ''  return 1;'' @ [LF] @ ''}'')]"
  by (simp add: example_buffer_def grammar_defs)

lemma example_apply_regions:
  "map originalRange (regions (sessions (fst (applySandboxSegmentsToOriginal lineStore 0
      ''untitled:Untitled-1'' example_world)) 0))
     = [\<lparr>startLine = 0, endLine = 2\<rparr>, \<lparr>startLine = 7, endLine = 15\<rparr>]"
  by (simp add: applySandboxSegmentsToOriginal_unfold example_world_def example_session_def
      example_doc_def example_parse store_defs Let_def)

lemma example_apply_result:
  "snd (applySandboxSegmentsToOriginal lineStore 0 ''untitled:Untitled-1'' example_world) = None \<and>
   saved (fst (applySandboxSegmentsToOriginal lineStore 0 ''untitled:Untitled-1'' example_world))
     = [''file:///a.ts'']"
  by (simp add: applySandboxSegmentsToOriginal_unfold example_world_def example_session_def
      example_doc_def example_parse store_defs Let_def)

text \<open>
  Claim C1. After a successful apply (the edit was accepted and the file saved), region \<open>i\<close>
  starts at its old start line plus the sum, over the regions before it, of new line count
  minus old line count, and ends at its new start plus its new line count minus one: one
  running shift, starting at 0, carried down the regions in order. For the two regions
  \<open>[0,5]\<close> and \<open>[10,18]\<close> of a 20-line file, with the first cut to 3 lines and the second
  kept at 9 lines, one apply gives \<open>[0,2]\<close> and \<open>[7,15]\<close>.
\<close>

theorem shift_calculus_after_apply:
  "(applySandboxSegmentsToOriginal store a docKey w = (w', None) \<and> saved w' \<noteq> saved w \<and>
    parseSandboxText (buffers w docKey) = Inr blocks \<and> i < length (regions (sessions w a)) \<longrightarrow>
      length (regions (sessions w' a)) = length (regions (sessions w a)) \<and>
      startLine (originalRange (regions (sessions w' a) ! i))
        = startLine (originalRange (regions (sessions w a) ! i))
          + (\<Sum>j<i. newCodeLineCount blocks (regions (sessions w a) ! j)
                    - oldLineCount (regions (sessions w a) ! j)) \<and>
      endLine (originalRange (regions (sessions w' a) ! i))
        = startLine (originalRange (regions (sessions w' a) ! i))
          + newCodeLineCount blocks (regions (sessions w a) ! i) - 1) \<and>
   map originalRange (regions (sessions example_world 0))
     = [\<lparr>startLine = 0, endLine = 5\<rparr>, \<lparr>startLine = 10, endLine = 18\<rparr>] \<and>
   map_option (map (length \<circ> splitEol [] \<circ> snd)) (projr_opt (parseSandboxText (buffers example_world ''untitled:Untitled-1'')))
     = Some [3, 9] \<and>
   map originalRange (regions (sessions (fst (applySandboxSegmentsToOriginal lineStore 0
       ''untitled:Untitled-1'' example_world)) 0))
     = [\<lparr>startLine = 0, endLine = 2\<rparr>, \<lparr>startLine = 7, endLine = 15\<rparr>]"
proof -
  have general: "length (regions (sessions w' a)) = length (regions (sessions w a)) \<and>
      startLine (originalRange (regions (sessions w' a) ! i))
        = startLine (originalRange (regions (sessions w a) ! i))
          + (\<Sum>j<i. newCodeLineCount blocks (regions (sessions w a) ! j)
                    - oldLineCount (regions (sessions w a) ! j)) \<and>
      endLine (originalRange (regions (sessions w' a) ! i))
        = startLine (originalRange (regions (sessions w' a) ! i))
          + newCodeLineCount blocks (regions (sessions w a) ! i) - 1"
    if "applySandboxSegmentsToOriginal store a docKey w = (w', None)" and "saved w' \<noteq> saved w"
      and "parseSandboxText (buffers w docKey) = Inr blocks" and "i < length (regions (sessions w a))"
    using shiftCalculus_closed [OF apply_success [OF that(1,2,3)] that(4)] by simp
  have before: "map originalRange (regions (sessions example_world 0))
     = [\<lparr>startLine = 0, endLine = 5\<rparr>, \<lparr>startLine = 10, endLine = 18\<rparr>]"
    by (simp add: example_world_def example_session_def)
  have counts: "map_option (map (length \<circ> splitEol [] \<circ> snd)) (projr_opt (parseSandboxText (buffers example_world ''untitled:Untitled-1'')))
     = Some [3, 9]"
    by (simp add: example_world_def example_parse projr_opt_def)
  show ?thesis
    using general before counts example_apply_regions by blast
qed

theorem shift_calculus_after_apply_witness:
  "applySandboxSegmentsToOriginal lineStore 0 ''untitled:Untitled-1'' example_world
     = (fst (applySandboxSegmentsToOriginal lineStore 0 ''untitled:Untitled-1'' example_world), None) \<and>
   saved (fst (applySandboxSegmentsToOriginal lineStore 0 ''untitled:Untitled-1'' example_world))
     \<noteq> saved example_world \<and>
   (1::nat) < length (regions (sessions example_world 0)) \<and>
   startLine (originalRange (regions (sessions (fst (applySandboxSegmentsToOriginal lineStore 0
       ''untitled:Untitled-1'' example_world)) 0) ! 1)) = 10 + (3 - 6) \<and>
   endLine (originalRange (regions (sessions (fst (applySandboxSegmentsToOriginal lineStore 0
       ''untitled:Untitled-1'' example_world)) 0) ! 1)) = 7 + 9 - 1"
proof -
  let ?w' = "fst (applySandboxSegmentsToOriginal lineStore 0 ''untitled:Untitled-1'' example_world)"
  let ?blocks = "[(''region_0'', ''function f() {'' @ [LF] @ ''  one();'' @ [LF] @ ''}''),
          (''region_1'', ''function g() {'' @ [LF] @ ''  a();'' @ [LF] @ ''  b();'' @ [LF] @
            ''  c();'' @ [LF] @ ''  d();'' @ [LF] @ ''  e();'' @ [LF] @ ''  f();'' @ [LF] @
            ''  return 1;'' @ [LF] @ ''}'')]"
  have h1: "applySandboxSegmentsToOriginal lineStore 0 ''untitled:Untitled-1'' example_world = (?w', None)"
    using example_apply_result by (simp add: prod_eq_iff)
  have h2: "saved ?w' \<noteq> saved example_world"
    using example_apply_result by (simp add: example_world_def)
  have h3: "parseSandboxText (buffers example_world ''untitled:Untitled-1'') = Inr ?blocks"
    using example_parse by (simp add: example_world_def)
  have h4: "(1::nat) < length (regions (sessions example_world 0))"
    by (simp add: example_world_def example_session_def)
  have "startLine (originalRange (regions (sessions ?w' 0) ! 1))
        = startLine (originalRange (regions (sessions example_world 0) ! 1))
          + (\<Sum>j<1. newCodeLineCount ?blocks (regions (sessions example_world 0) ! j)
                    - oldLineCount (regions (sessions example_world 0) ! j)) \<and>
      endLine (originalRange (regions (sessions ?w' 0) ! 1))
        = startLine (originalRange (regions (sessions ?w' 0) ! 1))
          + newCodeLineCount ?blocks (regions (sessions example_world 0) ! 1) - 1"
    using shift_calculus_after_apply [of lineStore 0 "''untitled:Untitled-1''" example_world ?w' ?blocks 1]
      h1 h2 h3 h4 by blast
  then have "startLine (originalRange (regions (sessions ?w' 0) ! 1)) = 10 + (3 - 6) \<and>
      endLine (originalRange (regions (sessions ?w' 0) ! 1)) = 7 + 9 - 1"
    by (simp add: example_world_def example_session_def newCodeLineCount_def oldLineCount_def)
  with h1 h2 h4 show ?thesis by blast
qed

section \<open>Round trip of render and parse\<close>

subsection \<open>Region ids are valid and distinct\<close>

lemma digit_char_cases:
  assumes "(d::nat) < 10"
  obtains "d = 0" | "d = 1" | "d = 2" | "d = 3" | "d = 4" | "d = 5" | "d = 6" | "d = 7" | "d = 8" | "d = 9"
  using assms by atomize_elim presburger

lemma is_digit_digit_char: "d < 10 \<Longrightarrow> is_digit (digit_char d)"
  by (erule digit_char_cases) (simp_all add: digit_char_def is_digit_def)

lemma of_char_digit_char: "d < 10 \<Longrightarrow> (of_char (digit_char d) :: nat) = 48 + d"
  by (erule digit_char_cases) (simp_all add: digit_char_def)

lemma show_nat_digits: "show_nat n \<noteq> [] \<and> (\<forall>d\<in>set (show_nat n). is_digit d)"
proof (induction n rule: show_nat.induct)
  case (1 n)
  show ?case
  proof (cases "n < 10")
    case True
    then show ?thesis by (subst (1 2) show_nat.simps) (simp add: is_digit_digit_char)
  next
    case False
    with 1 show ?thesis by (subst (1 2) show_nat.simps) (simp add: is_digit_digit_char)
  qed
qed

lemma read_nat_snoc: "read_nat (ds @ [d]) = 10 * read_nat ds + (of_char d - 48)"
  by (simp add: read_nat_def)

lemma read_show_nat: "read_nat (show_nat n) = n"
proof (induction n rule: show_nat.induct)
  case (1 n)
  show ?case
  proof (cases "n < 10")
    case True
    then show ?thesis
      by (subst show_nat.simps) (simp add: read_nat_def of_char_digit_char)
  next
    case False
    with 1 have "read_nat (show_nat (n div 10)) = n div 10" by simp
    with False show ?thesis
      by (subst show_nat.simps) (simp add: read_nat_snoc of_char_digit_char)
  qed
qed

lemma inj_regionId: "regionId i = regionId j \<Longrightarrow> i = j"
  by (metis regionId_def read_show_nat same_append_eq)

lemma valid_id_regionId: "valid_id (regionId i)"
  unfolding valid_id_def regionId_def using show_nat_digits [of i] by blast

lemma distinct_regionIds: "distinct (map regionId [i..<j])"
  by (simp add: distinct_map inj_on_def) (blast dest: inj_regionId)

subsection \<open>Chunks\<close>

lemma clean_append:
  assumes "clean a" and "\<not> has_sep b"
  shows "\<not> has_sep (a @ b)"
proof
  assume "has_sep (a @ b)"
  then obtain u t where ut: "a @ b = u @ t" and m: "match_sep t \<noteq> None"
    using has_sep_iff by blast
  from ut consider v where "b = v @ t" | t' where "a = u @ t'" "t = t' @ b" "t' \<noteq> []"
    by (auto simp: append_eq_append_conv2) (metis append_Nil)
  then show False
  proof cases
    case 1
    with m assms(2) show False using has_sep_iff by blast
  next
    case 2
    from m obtain rid r where "match_sep (t' @ b) = Some (rid, r)"
      using 2(2) by auto
    moreover have "last t' = LF"
      using assms(1) 2(1,3) by (auto simp: clean_def)
    ultimately obtain z where "match_sep t' = Some (rid, z)"
      using no_straddle 2(3) by blast
    with 2(1) have "has_sep a" using has_sep_iff by blast
    with assms(1) show False by (simp add: clean_def)
  qed
qed

lemma not_has_sep_LF: "\<not> has_sep [LF]"
  by (simp add: match_sep_def sep_open_def)

lemma clean_blank_line:
  assumes "\<not> has_sep (c @ [LF])"
  shows "clean (c @ [LF, LF])"
proof -
  have "clean (c @ [LF])"
    using assms by (simp add: clean_def)
  then have "\<not> has_sep ((c @ [LF]) @ [LF])"
    using not_has_sep_LF by (rule clean_append)
  then show ?thesis by (simp add: clean_def)
qed

lemma split_sep_no_sep:
  assumes "\<not> has_sep s"
  shows "split_sep acc s = [rev acc @ s]"
proof -
  have "split_sep acc (s @ []) = split_sep (rev s @ acc) []"
  proof (rule split_sep_skip)
    fix u t assume "s = u @ t" and "t \<noteq> []"
    then have "match_sep t = None"
      using assms unfolding has_sep_iff by blast
    then show "match_sep (t @ []) = None" by simp
  qed
  then show ?thesis by simp
qed

lemma split_chunks:
  assumes "chunks_ok (pre # map snd segs)" and "\<forall>seg\<in>set segs. valid_id (fst seg)"
  shows "split_sep acc (pre @ concat (map seg_text segs))
           = (rev acc @ pre) # concat (map seg_parts segs)"
  using assms
proof (induction segs arbitrary: acc pre)
  case Nil
  then show ?case by (simp add: split_sep_no_sep)
next
  case (Cons seg segs)
  obtain rid code where seg: "seg = (rid, code)" by (cases seg)
  with Cons.prems have v: "valid_id rid" and c: "clean pre"
    and ok: "chunks_ok (code # map snd segs)"
    and rest: "\<forall>seg\<in>set segs. valid_id (fst seg)"
    by auto
  have "split_sep acc (pre @ concat (map seg_text (seg # segs)))
          = split_sep (rev pre @ acc) (sep_line rid @ (code @ concat (map seg_text segs)))"
    using split_sep_clean [OF c] by (simp add: seg)
  also have "\<dots> = (rev acc @ pre) # rid # split_sep [] (code @ concat (map seg_text segs))"
    by (simp add: split_sep_at_sep [OF v])
  also have "split_sep [] (code @ concat (map seg_text segs)) = code # concat (map seg_parts segs)"
    using Cons.IH [OF ok rest, of "[]"] by simp
  finally show ?case by (simp add: seg)
qed

lemma chunks_ok_clean: "\<forall>c\<in>set cs. clean c \<Longrightarrow> chunks_ok cs"
  by (induction cs rule: chunks_ok.induct) (auto simp: clean_def)


lemma parse_chunks_length:
  assumes "chunks_ok (pre # map snd segs)" and "\<forall>seg\<in>set segs. valid_id (fst seg)"
  shows "\<exists>blocks. parseSandboxText (pre @ concat (map seg_text segs)) = Inr blocks
           \<and> length blocks \<le> length segs"
proof -
  have "parseSandboxText (pre @ concat (map seg_text segs))
          = Inr (fold (\<lambda>seg. AList.update (fst seg) (stripTrailing (snd seg))) segs [])"
    unfolding parseSandboxText_def
    using split_chunks [OF assms, of "[]"] by (simp add: parseCodeBlocks_pairs)
  moreover have "length (fold (\<lambda>seg. AList.update (fst seg) (stripTrailing (snd seg))) segs [])
                   \<le> length segs"
    using length_fold_update_le [of stripTrailing segs "[]"] by simp
  ultimately show ?thesis by blast
qed


subsection \<open>The rendered buffer\<close>

lemma renderRegion_seg_text: "renderRegion rid content = seg_text (rid, content @ [LF, LF])"
  by (simp add: renderRegion_def sep_line_def)

lemma buildRegions_shape:
  "buildRegions doc idx ranges = Inr (regs, stext) \<Longrightarrow>
     stext = concat (map (\<lambda>r. seg_text (id_region r, originalContent r @ [LF, LF])) regs) \<and>
     map id_region regs = map regionId [idx..<idx + length regs]"
proof (induction ranges arbitrary: idx regs stext)
  case Nil
  then show ?case by simp
next
  case (Cons rng ranges)
  from Cons.prems obtain content regs' stext' where
    rec: "buildRegions doc (Suc idx) ranges = Inr (regs', stext')"
    and regs: "regs = \<lparr>id_region = regionId idx, originalRange = rng, originalContent = content\<rparr> # regs'"
    and stext: "stext = renderRegion (regionId idx) content @ stext'"
    by (auto split: sum.splits)
  from Cons.IH [OF rec] have
    "stext' = concat (map (\<lambda>r. seg_text (id_region r, originalContent r @ [LF, LF])) regs')"
    and "map id_region regs' = map regionId [Suc idx..<Suc idx + length regs']"
    by simp_all
  then show ?case
    by (simp add: regs stext renderRegion_seg_text upt_conv_Cons del: upt_Suc)
qed

lemma roundtrip:
  assumes build: "buildRegions origDoc idx ranges = Inr (regs, sandboxText)"
    and plain: "\<forall>r\<in>set regs. \<not> has_sep (originalContent r @ [LF]) \<and>
                  (originalContent r = [] \<or> last (originalContent r) \<noteq> CR)"
  shows "parseSandboxText sandboxText = Inr (map (\<lambda>r. (id_region r, originalContent r)) regs)"
proof -
  define segs where "segs = map (\<lambda>r. (id_region r, originalContent r @ [LF, LF])) regs"
  from buildRegions_shape [OF build]
  have stext: "sandboxText = [] @ concat (map seg_text segs)"
    and ids: "map fst segs = map regionId [idx..<idx + length regs]"
    by (simp_all add: segs_def comp_def)
  have "\<forall>c\<in>set ([] # map snd segs). clean c"
    using plain by (auto simp: segs_def clean_blank_line) (simp add: clean_def)
  then have ok: "chunks_ok ([] # map snd segs)"
    by (rule chunks_ok_clean)
  have valid: "\<forall>seg\<in>set segs. valid_id (fst seg)"
  proof
    fix seg assume "seg \<in> set segs"
    then have "fst seg \<in> set (map fst segs)" by simp
    then show "valid_id (fst seg)"
      unfolding ids using valid_id_regionId by auto
  qed
  have dist: "distinct (map fst segs)"
    unfolding ids by (rule distinct_regionIds)
  have "parseSandboxText sandboxText
          = Inr (fold (\<lambda>seg. AList.update (fst seg) (stripTrailing (snd seg))) segs [])"
    unfolding parseSandboxText_def stext
    using split_chunks [OF ok valid, of "[]"] by (simp add: parseCodeBlocks_pairs)
  also have "fold (\<lambda>seg. AList.update (fst seg) (stripTrailing (snd seg))) segs []
               = map (\<lambda>seg. (fst seg, stripTrailing (snd seg))) segs"
    using fold_update_fresh [OF dist, of "[]" stripTrailing] by simp
  also have "\<dots> = map (\<lambda>r. (id_region r, originalContent r)) regs"
    using plain by (simp add: segs_def stripTrailing_blank [of _, simplified])
  finally show ?thesis .
qed

text \<open>
  Claim C3 (as the code has it). When the extractor has built the regions and the buffer
  text, and no region text, read as whole lines, holds a line matching the separator
  pattern or ends in a bare carriage return, parsing the unedited buffer text gives back
  every region's original text under its id, one block per region. The parser removes at
  most one trailing blank-line sequence from a block: a block that ended in a blank line
  before the separator blank line was added keeps it.
\<close>

theorem render_parse_roundtrip:
  "(buildRegions origDoc 0 ranges = Inr (regs, sandboxText) \<and>
    (\<forall>r\<in>set regs. \<not> has_sep (originalContent r @ [LF]) \<and>
        (originalContent r = [] \<or> last (originalContent r) \<noteq> CR)) \<longrightarrow>
      parseSandboxText sandboxText = Inr (map (\<lambda>r. (id_region r, originalContent r)) regs)) \<and>
   (stripTrailing code = code \<or> (\<exists>t\<in>blank_tails. code = stripTrailing code @ t)) \<and>
   stripTrailing (code @ [LF, LF] @ [LF, LF]) = code @ [LF, LF]"
proof -
  have "stripTrailing ((code @ [LF, LF]) @ [LF, LF]) = code @ [LF, LF]"
    by (rule stripTrailing_blank) simp
  then show ?thesis
    using roundtrip [of origDoc 0 ranges regs sandboxText] stripTrailing_suffix [of code]
    by auto
qed

theorem render_parse_roundtrip_counterexample:
  "buildRegions cex_doc 0 [\<lparr>startLine = 0, endLine = 1\<rparr>] = Inr ([cex_region], cex_text) \<and>
   parseSandboxText cex_text = Inr [(''region_0'', []), (''region_5'', ''x'')] \<and>
   parseSandboxText cex_text \<noteq> Inr [(id_region cex_region, originalContent cex_region)]"
proof -
  have 1: "buildRegions cex_doc 0 [\<lparr>startLine = 0, endLine = 1\<rparr>] = Inr ([cex_region], cex_text)"
    by (simp add: cex_doc_def cex_region_def cex_text_def doc_defs sep_line_def sep_open_def
        sep_close_def scissors_def)
  have 2: "parseSandboxText cex_text = Inr [(''region_0'', []), (''region_5'', ''x'')]"
    by (simp add: cex_text_def grammar_defs)
  show ?thesis using 1 2 by (simp add: cex_region_def)
qed

theorem render_parse_roundtrip_witness:
  "buildRegions witness_doc 0 [\<lparr>startLine = 0, endLine = 0\<rparr>, \<lparr>startLine = 2, endLine = 2\<rparr>]
     = Inr (witness_regions, witness_text) \<and>
   \<not> has_sep (''a'' @ [LF]) \<and> \<not> has_sep (''c'' @ [LF]) \<and> last ''a'' \<noteq> CR \<and> last ''c'' \<noteq> CR \<and>
   parseSandboxText witness_text = Inr [(''region_0'', ''a''), (''region_1'', ''c'')]"
proof -
  have build: "buildRegions witness_doc 0 [\<lparr>startLine = 0, endLine = 0\<rparr>, \<lparr>startLine = 2, endLine = 2\<rparr>]
     = Inr (witness_regions, witness_text)"
    by (simp add: witness_doc_def witness_regions_def witness_text_def doc_defs sep_line_def)
  have plain: "\<not> has_sep (''a'' @ [LF]) \<and> \<not> has_sep (''c'' @ [LF]) \<and> last ''a'' \<noteq> CR \<and> last ''c'' \<noteq> CR"
    by (simp add: match_sep_def sep_open_def)
  then have "\<forall>r\<in>set witness_regions. \<not> has_sep (originalContent r @ [LF]) \<and>
        (originalContent r = [] \<or> last (originalContent r) \<noteq> CR)"
    by (simp add: witness_regions_def)
  with build have "parseSandboxText witness_text
      = Inr (map (\<lambda>r. (id_region r, originalContent r)) witness_regions)"
    using render_parse_roundtrip [of witness_doc "[\<lparr>startLine = 0, endLine = 0\<rparr>, \<lparr>startLine = 2, endLine = 2\<rparr>]"
        witness_regions witness_text] by blast
  then have "parseSandboxText witness_text = Inr [(''region_0'', ''a''), (''region_1'', ''c'')]"
    by (simp add: witness_regions_def)
  with build plain show ?thesis by blast
qed

section \<open>Delimiter loss, unknown and duplicate ids\<close>

lemma parse_total: "\<exists>blocks. parseSandboxText sandboxText = Inr blocks"
proof -
  have "odd (length (split_sep [] sandboxText))"
    by (rule odd_length_split_sep)
  then have "even (length (drop 1 (split_sep [] sandboxText)))"
    by (cases "split_sep [] sandboxText") auto
  then show ?thesis
    unfolding parseSandboxText_def by (rule parseCodeBlocks_even)
qed










text \<open>
  Claim C6 (what the code does). With two regions \<open>region_0\<close> and \<open>region_1\<close> and a buffer
  whose second delimiter names \<open>region_7\<close>, the count guard passes: an edit whose text for
  \<open>region_1\<close> is undefined is submitted, no separator error is shown, and once the edit is
  accepted the shift calculus throws a type error. With \<open>region_1\<close> delimited twice the last
  block silently wins and the edit is submitted.
\<close>

theorem unknown_or_duplicate_id_not_rejected:
  "submitted (fst (applySandboxSegmentsToOriginal store 0 ''untitled:Untitled-1''
       (witness_world unknown_id_text)))
     = [(''file:///w.ts'',
         [\<lparr>rStartLine = 0, rStartChar = 0, rEndLine = 0, rEndChar = 1, newText = Some ''a''\<rparr>,
          \<lparr>rStartLine = 2, rStartChar = 0, rEndLine = 2, rEndChar = 1, newText = None\<rparr>])] \<and>
   messages (fst (applySandboxSegmentsToOriginal store 0 ''untitled:Untitled-1''
       (witness_world unknown_id_text))) = [] \<and>
   snd (applySandboxSegmentsToOriginal (\<lambda>uri doc edit. Some doc) 0 ''untitled:Untitled-1''
       (witness_world unknown_id_text)) = Some TypeError \<and>
   submitted (fst (applySandboxSegmentsToOriginal store 0 ''untitled:Untitled-1''
       (witness_world duplicate_id_text)))
     = [(''file:///w.ts'',
         [\<lparr>rStartLine = 0, rStartChar = 0, rEndLine = 0, rEndChar = 1, newText = Some ''a''\<rparr>,
          \<lparr>rStartLine = 2, rStartChar = 0, rEndLine = 2, rEndChar = 1, newText = Some ''c''\<rparr>])] \<and>
   messages (fst (applySandboxSegmentsToOriginal store 0 ''untitled:Untitled-1''
       (witness_world duplicate_id_text))) = []"
proof -
  have p1: "parseSandboxText unknown_id_text = Inr [(''region_0'', ''a''), (''region_7'', ''c'')]"
    by (simp add: unknown_id_text_def grammar_defs)
  have p2: "parseSandboxText duplicate_id_text = Inr [(''region_0'', ''a''), (''region_1'', ''c'')]"
    by (simp add: duplicate_id_text_def grammar_defs)
  show ?thesis
    by (simp add: applySandboxSegmentsToOriginal_unfold world_defs p1 p2 store_defs Let_def
        split: option.split prod.split)
qed

section \<open>Container boundaries\<close>

lemma boundary_Cons:
  "boundary (s # path) =
     Some (case boundary path of
             Some c \<Rightarrow> if kind c \<in> set validContainers then c else s
           | None \<Rightarrow> s)"
proof (cases path)
  case Nil
  then show ?thesis by (simp add: boundary_def containers_def)
next
  case (Cons p ps)
  show ?thesis
  proof (cases "containers path = []")
    case True
    then have "kind p \<notin> set validContainers"
      using Cons by (auto simp: containers_def split: if_splits)
    with True Cons show ?thesis
      by (simp add: boundary_def containers_def)
  next
    case False
    then have "last (containers path) \<in> set (containers path)" by simp
    then have "kind (last (containers path)) \<in> set validContainers"
      by (simp add: containers_def)
    with False Cons show ?thesis
      by (simp add: boundary_def containers_def)
  qed
qed

lemma findSymbolAtLine_boundary:
  "findSymbolAtLine symbols targetLine = boundary (enclosing_path symbols targetLine)"
proof (induction symbols targetLine rule: findSymbolAtLine.induct)
  case (1 targetLine)
  show ?case by (simp add: boundary_def)
next
  case (2 k r cs symbols targetLine)
  show ?case
  proof (cases "startLine r \<le> targetLine \<and> endLine r \<ge> targetLine")
    case True
    then have enc: "encloses (DocumentSymbol k r cs) targetLine"
      by (simp add: encloses_def)
    have child: "findSymbolAtLine cs targetLine = boundary (enclosing_path cs targetLine)"
    proof (cases "cs = []")
      case True
      then show ?thesis by (simp add: boundary_def)
    next
      case False
      with "2.IH"(1) \<open>startLine r \<le> targetLine \<and> endLine r \<ge> targetLine\<close> show ?thesis
        by simp
    qed
    have none: "cs = [] \<Longrightarrow> boundary (enclosing_path cs targetLine) = None"
      by (simp add: boundary_def)
    show ?thesis
      using True enc child none
      by (cases "cs = []")
         (auto simp: boundary_Cons Let_def split: option.splits)
  next
    case False
    with "2.IH"(2) show ?thesis
      by (auto simp: encloses_def)
  qed
qed

lemma enclosing_path_Nil_iff:
  "enclosing_path symbols targetLine = [] \<longleftrightarrow> (\<forall>s\<in>set symbols. \<not> encloses s targetLine)"
proof (induction symbols)
  case Nil
  show ?case by simp
next
  case (Cons symbol symbols)
  obtain k r cs where "symbol = DocumentSymbol k r cs" by (cases symbol)
  with Cons show ?case by simp
qed

lemma enclosing_path_hd:
  "enclosing_path symbols targetLine = outer # inner \<Longrightarrow>
     find (\<lambda>x. encloses x targetLine) symbols = Some outer \<and>
     inner = enclosing_path (children outer) targetLine"
proof (induction symbols)
  case Nil
  then show ?case by simp
next
  case (Cons symbol symbols)
  obtain k r cs where "symbol = DocumentSymbol k r cs" by (cases symbol)
  with Cons show ?case by (auto split: if_splits)
qed

lemma enclosing_path_encloses:
  "s \<in> set (enclosing_path symbols targetLine) \<Longrightarrow> encloses s targetLine"
proof (induction symbols targetLine rule: enclosing_path.induct)
  case (1 targetLine)
  then show ?case by simp
next
  case (2 k r cs symbols targetLine)
  then show ?case by (auto split: if_splits)
qed

text \<open>
  Claim C8 (as the code has it). The search prefers Function, Method, Class and Constructor
  symbols, but an enclosing symbol of another kind is still a boundary. The search follows
  the path of the first enclosing symbols from the outer level downwards, and every symbol
  of the path encloses the candidate line. The result of \<open>findSymbolAtLine\<close> is the
  innermost valid container of the path; when the path holds no valid container the result
  is the first outer-level symbol that encloses the line, whatever its kind. The range of the
  result is used as it is. The fixed window of four lines on each side is used only when no
  outer-level symbol encloses the line, which is exactly when the search finds nothing.
\<close>

theorem container_boundaries:
  "findSymbolAtLine symbols line = boundary (enclosing_path symbols line) \<and>
   (enclosing_path symbols line = [] \<longleftrightarrow> (\<forall>s\<in>set symbols. \<not> encloses s line)) \<and>
   (\<forall>s\<in>set (enclosing_path symbols line). encloses s line) \<and>
   (enclosing_path symbols line = outer # inner \<longrightarrow>
      find (\<lambda>x. encloses x line) symbols = Some outer \<and>
      inner = enclosing_path (children outer) line \<and>
      findSymbolAtLine symbols line
        = Some (if containers (outer # inner) = [] then outer else last (containers (outer # inner))) \<and>
      lineToRange symbols origDoc line
        = (if containers (outer # inner) = []
           then \<lparr>startLine = startLine (symRange outer), endLine = endLine (symRange outer)\<rparr>
           else \<lparr>startLine = startLine (symRange (last (containers (outer # inner)))),
                 endLine = endLine (symRange (last (containers (outer # inner))))\<rparr>)) \<and>
   ((\<forall>s\<in>set symbols. \<not> encloses s line) \<longrightarrow>
      findSymbolAtLine symbols line = None \<and>
      lineToRange symbols origDoc line
        = \<lparr>startLine = max 0 (line - 4), endLine = min (lineCount origDoc - 1) (line + 4)\<rparr>)"
proof -
  note char = findSymbolAtLine_boundary [of symbols line]
  have 2: "enclosing_path symbols line = [] \<longleftrightarrow> (\<forall>s\<in>set symbols. \<not> encloses s line)"
    by (rule enclosing_path_Nil_iff)
  have 3: "\<forall>s\<in>set (enclosing_path symbols line). encloses s line"
    using enclosing_path_encloses by blast
  have 4: "find (\<lambda>x. encloses x line) symbols = Some outer \<and>
      inner = enclosing_path (children outer) line \<and>
      findSymbolAtLine symbols line
        = Some (if containers (outer # inner) = [] then outer else last (containers (outer # inner))) \<and>
      lineToRange symbols origDoc line
        = (if containers (outer # inner) = []
           then \<lparr>startLine = startLine (symRange outer), endLine = endLine (symRange outer)\<rparr>
           else \<lparr>startLine = startLine (symRange (last (containers (outer # inner)))),
                 endLine = endLine (symRange (last (containers (outer # inner))))\<rparr>)"
    if path: "enclosing_path symbols line = outer # inner"
  proof -
    have f: "findSymbolAtLine symbols line
        = Some (if containers (outer # inner) = [] then outer else last (containers (outer # inner)))"
      unfolding char path by (simp add: boundary_def)
    then have "lineToRange symbols origDoc line
        = (if containers (outer # inner) = []
           then \<lparr>startLine = startLine (symRange outer), endLine = endLine (symRange outer)\<rparr>
           else \<lparr>startLine = startLine (symRange (last (containers (outer # inner)))),
                 endLine = endLine (symRange (last (containers (outer # inner))))\<rparr>)"
      by (simp add: lineToRange_def)
    with f enclosing_path_hd [OF path] show ?thesis by blast
  qed
  have 5: "findSymbolAtLine symbols line = None \<and>
      lineToRange symbols origDoc line
        = \<lparr>startLine = max 0 (line - 4), endLine = min (lineCount origDoc - 1) (line + 4)\<rparr>"
    if "\<forall>s\<in>set symbols. \<not> encloses s line"
  proof -
    from that 2 have "enclosing_path symbols line = []" by blast
    then have "findSymbolAtLine symbols line = None"
      unfolding char by (simp add: boundary_def)
    then show ?thesis by (simp add: lineToRange_def)
  qed
  show ?thesis
  proof (intro conjI)
    show "findSymbolAtLine symbols line = boundary (enclosing_path symbols line)"
      by (rule char)
    show "enclosing_path symbols line = [] \<longleftrightarrow> (\<forall>s\<in>set symbols. \<not> encloses s line)"
      by (rule 2)
    show "\<forall>s\<in>set (enclosing_path symbols line). encloses s line"
      by (rule 3)
  qed ((rule impI, erule 4), (rule impI, erule 5))
qed

theorem container_boundaries_counterexample:
  "kind (DocumentSymbol VariableKind \<lparr>startLine = 3, endLine = 3\<rparr> []) \<notin> set validContainers \<and>
   lineToRange [DocumentSymbol VariableKind \<lparr>startLine = 3, endLine = 3\<rparr> []] example_doc 3
     = \<lparr>startLine = 3, endLine = 3\<rparr> \<and>
   lineToRange [DocumentSymbol VariableKind \<lparr>startLine = 3, endLine = 3\<rparr> []] example_doc 3
     \<noteq> \<lparr>startLine = max 0 (3 - 4), endLine = min (lineCount example_doc - 1) (3 + 4)\<rparr>"
  by (simp add: lineToRange_def validContainers_def lineCount_def example_doc_def)

theorem container_boundaries_witness:
  "enclosing_path [DocumentSymbol ClassKind \<lparr>startLine = 0, endLine = 18\<rparr>
       [DocumentSymbol VariableKind \<lparr>startLine = 1, endLine = 1\<rparr> [],
        DocumentSymbol MethodKind \<lparr>startLine = 10, endLine = 18\<rparr>
          [DocumentSymbol VariableKind \<lparr>startLine = 12, endLine = 12\<rparr> []]]] 12
     = [DocumentSymbol ClassKind \<lparr>startLine = 0, endLine = 18\<rparr>
          [DocumentSymbol VariableKind \<lparr>startLine = 1, endLine = 1\<rparr> [],
           DocumentSymbol MethodKind \<lparr>startLine = 10, endLine = 18\<rparr>
             [DocumentSymbol VariableKind \<lparr>startLine = 12, endLine = 12\<rparr> []]],
        DocumentSymbol MethodKind \<lparr>startLine = 10, endLine = 18\<rparr>
          [DocumentSymbol VariableKind \<lparr>startLine = 12, endLine = 12\<rparr> []],
        DocumentSymbol VariableKind \<lparr>startLine = 12, endLine = 12\<rparr> []] \<and>
   findSymbolAtLine [DocumentSymbol ClassKind \<lparr>startLine = 0, endLine = 18\<rparr>
       [DocumentSymbol VariableKind \<lparr>startLine = 1, endLine = 1\<rparr> [],
        DocumentSymbol MethodKind \<lparr>startLine = 10, endLine = 18\<rparr>
          [DocumentSymbol VariableKind \<lparr>startLine = 12, endLine = 12\<rparr> []]]] 12
     = Some (DocumentSymbol MethodKind \<lparr>startLine = 10, endLine = 18\<rparr>
          [DocumentSymbol VariableKind \<lparr>startLine = 12, endLine = 12\<rparr> []]) \<and>
   lineToRange [DocumentSymbol ClassKind \<lparr>startLine = 0, endLine = 18\<rparr>
       [DocumentSymbol VariableKind \<lparr>startLine = 1, endLine = 1\<rparr> [],
        DocumentSymbol MethodKind \<lparr>startLine = 10, endLine = 18\<rparr>
          [DocumentSymbol VariableKind \<lparr>startLine = 12, endLine = 12\<rparr> []]]] example_doc 12
     = \<lparr>startLine = 10, endLine = 18\<rparr> \<and>
   enclosing_path [DocumentSymbol VariableKind \<lparr>startLine = 3, endLine = 3\<rparr> []] 3
     = [DocumentSymbol VariableKind \<lparr>startLine = 3, endLine = 3\<rparr> []] \<and>
   lineToRange [DocumentSymbol VariableKind \<lparr>startLine = 3, endLine = 3\<rparr> []] example_doc 3
     = \<lparr>startLine = 3, endLine = 3\<rparr> \<and>
   \<not> encloses (DocumentSymbol VariableKind \<lparr>startLine = 3, endLine = 3\<rparr> []) 12 \<and>
   lineToRange [DocumentSymbol VariableKind \<lparr>startLine = 3, endLine = 3\<rparr> []] example_doc 12
     = \<lparr>startLine = 8, endLine = 16\<rparr>"
proof -
  let ?v = "DocumentSymbol VariableKind \<lparr>startLine = 12, endLine = 12\<rparr> []"
  let ?m = "DocumentSymbol MethodKind \<lparr>startLine = 10, endLine = 18\<rparr> [?v]"
  let ?cls = "DocumentSymbol ClassKind \<lparr>startLine = 0, endLine = 18\<rparr>
       [DocumentSymbol VariableKind \<lparr>startLine = 1, endLine = 1\<rparr> [], ?m]"
  let ?g = "DocumentSymbol VariableKind \<lparr>startLine = 3, endLine = 3\<rparr> []"
  have p1: "enclosing_path [?cls] 12 = ?cls # [?m, ?v]"
    by (simp add: encloses_def)
  have c1: "containers (?cls # [?m, ?v]) = [?cls, ?m]"
    by (simp add: containers_def validContainers_def)
  note i1 = container_boundaries [of "[?cls]" 12 ?cls "[?m, ?v]" example_doc,
      THEN conjunct2, THEN conjunct2, THEN conjunct2, THEN conjunct1, THEN mp, OF p1]
  have r1: "findSymbolAtLine [?cls] 12 = Some ?m \<and>
            lineToRange [?cls] example_doc 12 = \<lparr>startLine = 10, endLine = 18\<rparr>"
    using i1 [THEN conjunct2, THEN conjunct2] unfolding c1 by simp
  have p2: "enclosing_path [?g] 3 = ?g # []"
    by (simp add: encloses_def)
  have c2: "containers (?g # []) = []"
    by (simp add: containers_def validContainers_def)
  note i2 = container_boundaries [of "[?g]" 3 ?g "[]" example_doc,
      THEN conjunct2, THEN conjunct2, THEN conjunct2, THEN conjunct1, THEN mp, OF p2]
  have r2: "lineToRange [?g] example_doc 3 = \<lparr>startLine = 3, endLine = 3\<rparr>"
    using i2 [THEN conjunct2, THEN conjunct2, THEN conjunct2] unfolding c2 by simp
  have n3: "\<not> encloses ?g 12"
    by (simp add: encloses_def)
  then have a3: "\<forall>s\<in>set [?g]. \<not> encloses s 12" by simp
  have "lineToRange [?g] example_doc 12
      = \<lparr>startLine = max 0 (12 - 4), endLine = min (lineCount example_doc - 1) (12 + 4)\<rparr>"
    by (rule container_boundaries [of "[?g]" 12 ?g "[]" example_doc,
      THEN conjunct2, THEN conjunct2, THEN conjunct2, THEN conjunct2, THEN mp, OF a3, THEN conjunct2])
  then have r3: "lineToRange [?g] example_doc 12 = \<lparr>startLine = 8, endLine = 16\<rparr>"
    by (simp add: lineCount_def example_doc_def)
  show ?thesis
    using p1 r1 p2 r2 n3 r3 by simp
qed

section \<open>The live-sync cycle\<close>

lemma apply_frame:
  assumes "applySandboxSegmentsToOriginal store a docKey w = (w', err)"
  shows "sandboxMap w' = sandboxMap w" and "timers w' = timers w" and "nextTimer w' = nextTimer w"
    and "buffers w' = buffers w" and "backups w' = backups w" and "nextSession w' = nextSession w"
    and "isLive (sessions w' b) = isLive (sessions w b)"
    and "mutex (sessions w' b) = mutex (sessions w b)"
    and "debounce (sessions w' b) = debounce (sessions w b)"
    and "originalUri (sessions w' b) = originalUri (sessions w b)"
    and "backupUri (sessions w' b) = backupUri (sessions w b)"
  using assms unfolding applySandboxSegmentsToOriginal_unfold
  by (auto simp: Let_def split: if_splits option.splits sum.splits prod.splits)

lemma timerCallback_idle:
  assumes idle: "\<not> mutex (sessions w a)"
    and run: "applySandboxSegmentsToOriginal store a docKey (busy a w) = (w2, err)"
  shows "timerCallback store a docKey w
           = w2\<lparr>messages := messages w2 @ sync_messages err,
                 sessions := (sessions w2)(a := (sessions w2 a)\<lparr>mutex := False\<rparr>)\<rparr>"
  using assms
  by (cases err) (simp_all add: timerCallback_unfold busy_def sync_messages_def Let_def)

lemma mutex_clear_idle: "\<not> mutex m \<Longrightarrow> m\<lparr>mutex := False\<rparr> = m"
  by (cases m) simp

lemma callbackStart_busy: "mutex (sessions w a) \<Longrightarrow> callbackStart a docKey w = (w, None)"
  by (simp add: callbackStart_def)

lemma callbackStart_mismatch:
  assumes "\<not> mutex (sessions w a)" and "parseSandboxText (buffers w docKey) = Inr blocks"
    and "length blocks \<noteq> length (regions (sessions w a))"
  shows "callbackStart a docKey w = (w\<lparr>messages := messages w @ [SeparatorDeleted]\<rparr>, None)"
  using assms
  by (simp add: callbackStart_def applyStart_def callbackEnd_def Let_def mutex_clear_idle)

lemma callbackStart_suspend:
  assumes "\<not> mutex (sessions w a)" and "parseSandboxText (buffers w docKey) = Inr blocks"
    and "length blocks = length (regions (sessions w a))"
  shows "callbackStart a docKey w
           = (w\<lparr>sessions := (sessions w)(a := (sessions w a)\<lparr>mutex := True\<rparr>)\<rparr>, Some blocks)"
  using assms
  by (simp add: callbackStart_def applyStart_def Let_def)

lemma applyResume_frame:
  assumes "applyResume store a blocks w = (w', err)"
  shows "sandboxMap w' = sandboxMap w" and "timers w' = timers w"
    and "isLive (sessions w' b) = isLive (sessions w b)"
  using assms unfolding applyResume_def
  by (auto simp: Let_def split: if_splits option.splits sum.splits prod.splits)

lemma callbackResume_frame:
  "\<not> mutex (sessions (callbackResume store a blocks w) a) \<and>
   (\<forall>b. isLive (sessions (callbackResume store a blocks w) b) = isLive (sessions w b)) \<and>
   sandboxMap (callbackResume store a blocks w) = sandboxMap w \<and>
   timers (callbackResume store a blocks w) = timers w"
proof -
  obtain w' err where run: "applyResume store a blocks w = (w', err)"
    by (cases "applyResume store a blocks w")
  note fr = applyResume_frame [OF run]
  show ?thesis
    by (cases err) (simp_all add: callbackResume_def callbackEnd_def run fr)
qed

lemma callbackResume_no_file:
  assumes "docs w (originalUri (sessions w a)) = None"
  shows "callbackResume store a blocks w
           = w\<lparr>messages := messages w @ [SyncError FileNotFound],
               sessions := (sessions w)(a := (sessions w a)\<lparr>mutex := False\<rparr>)\<rparr>"
  using assms by (simp add: callbackResume_def applyResume_def callbackEnd_def Let_def)

lemma callbackResume_throws:
  assumes "docs w (originalUri (sessions w a)) = Some originalDoc"
    and "buildEdit blocks originalDoc (regions (sessions w a)) = Inl e"
  shows "callbackResume store a blocks w
           = w\<lparr>messages := messages w @ [SyncError e],
               sessions := (sessions w)(a := (sessions w a)\<lparr>mutex := False\<rparr>)\<rparr>"
  using assms by (simp add: callbackResume_def applyResume_def callbackEnd_def Let_def)

lemma callbackResume_rejected:
  assumes "docs w (originalUri (sessions w a)) = Some originalDoc"
    and "buildEdit blocks originalDoc (regions (sessions w a)) = Inr edit"
    and "store (originalUri (sessions w a)) originalDoc edit = None"
  shows "callbackResume store a blocks w
           = w\<lparr>submitted := submitted w @ [(originalUri (sessions w a), edit)],
               sessions := (sessions w)(a := (sessions w a)\<lparr>mutex := False\<rparr>)\<rparr>"
  using assms by (simp add: callbackResume_def applyResume_def callbackEnd_def Let_def)

lemma callbackResume_applied:
  assumes "docs w (originalUri (sessions w a)) = Some originalDoc"
    and "buildEdit blocks originalDoc (regions (sessions w a)) = Inr edit"
    and "store (originalUri (sessions w a)) originalDoc edit = Some newDoc"
  shows "callbackResume store a blocks w
           = w\<lparr>submitted := submitted w @ [(originalUri (sessions w a), edit)],
               docs := (docs w)(originalUri (sessions w a) \<mapsto> newDoc),
               saved := saved w @ [originalUri (sessions w a)],
               messages := messages w
                 @ sync_messages (snd (shiftCalculus blocks 0 (regions (sessions w a)))),
               sessions := (sessions w)(a := (sessions w a)
                 \<lparr>regions := fst (shiftCalculus blocks 0 (regions (sessions w a))),
                  mutex := False\<rparr>)\<rparr>"
proof -
  obtain regs err where sc: "shiftCalculus blocks 0 (regions (sessions w a)) = (regs, err)"
    by (cases "shiftCalculus blocks 0 (regions (sessions w a))")
  show ?thesis
    using assms
    by (cases err)
      (simp_all add: callbackResume_def applyResume_def callbackEnd_def Let_def sync_messages_def sc)
qed

lemma mutex_clear_regions: "\<not> mutex m \<Longrightarrow> m\<lparr>regions := r, mutex := False\<rparr> = m\<lparr>regions := r\<rparr>"
  by (cases m) simp

lemma timerFires_pending:
  "timers w h = Some (a, docKey) \<Longrightarrow>
     timerFires store h w = timerCallback store a docKey (w\<lparr>timers := (timers w)(h := None)\<rparr>)"
  by (simp add: timerFires_def)

lemma timerCallback_busy: "mutex (sessions w a) \<Longrightarrow> timerCallback store a docKey w = w"
  by (simp add: timerCallback_def callbackStart_busy)

lemma timerCallback_mismatch:
  assumes "\<not> mutex (sessions w a)" and "parseSandboxText (buffers w docKey) = Inr blocks"
    and "length blocks \<noteq> length (regions (sessions w a))"
  shows "timerCallback store a docKey w = w\<lparr>messages := messages w @ [SeparatorDeleted]\<rparr>"
  by (simp add: timerCallback_def callbackStart_mismatch [OF assms])

lemma timerCallback_suspend:
  assumes "\<not> mutex (sessions w a)" and "parseSandboxText (buffers w docKey) = Inr blocks"
    and "length blocks = length (regions (sessions w a))"
  shows "timerCallback store a docKey w
           = callbackResume store a blocks
               (w\<lparr>sessions := (sessions w)(a := (sessions w a)\<lparr>mutex := True\<rparr>)\<rparr>)"
  by (simp add: timerCallback_def callbackStart_suspend [OF assms])

lemma resume_idle_no_file:
  assumes "\<not> mutex (sessions w a)" and "docs w (originalUri (sessions w a)) = None"
  shows "callbackResume store a blocks
           (w\<lparr>sessions := (sessions w)(a := (sessions w a)\<lparr>mutex := True\<rparr>)\<rparr>)
         = w\<lparr>messages := messages w @ [SyncError FileNotFound]\<rparr>"
proof -
  let ?w1 = "w\<lparr>sessions := (sessions w)(a := (sessions w a)\<lparr>mutex := True\<rparr>)\<rparr>"
  have "docs ?w1 (originalUri (sessions ?w1 a)) = None"
    using assms(2) by simp
  from callbackResume_no_file [OF this] show ?thesis
    using assms(1) by (simp add: mutex_clear_idle)
qed

lemma resume_idle_throws:
  assumes "\<not> mutex (sessions w a)" and "docs w (originalUri (sessions w a)) = Some originalDoc"
    and "buildEdit blocks originalDoc (regions (sessions w a)) = Inl e"
  shows "callbackResume store a blocks
           (w\<lparr>sessions := (sessions w)(a := (sessions w a)\<lparr>mutex := True\<rparr>)\<rparr>)
         = w\<lparr>messages := messages w @ [SyncError e]\<rparr>"
proof -
  let ?w1 = "w\<lparr>sessions := (sessions w)(a := (sessions w a)\<lparr>mutex := True\<rparr>)\<rparr>"
  have "docs ?w1 (originalUri (sessions ?w1 a)) = Some originalDoc"
    and "buildEdit blocks originalDoc (regions (sessions ?w1 a)) = Inl e"
    using assms(2,3) by simp_all
  from callbackResume_throws [OF this] show ?thesis
    using assms(1) by (simp add: mutex_clear_idle)
qed

lemma resume_idle_rejected:
  assumes "\<not> mutex (sessions w a)" and "docs w (originalUri (sessions w a)) = Some originalDoc"
    and "buildEdit blocks originalDoc (regions (sessions w a)) = Inr edit"
    and "store (originalUri (sessions w a)) originalDoc edit = None"
  shows "callbackResume store a blocks
           (w\<lparr>sessions := (sessions w)(a := (sessions w a)\<lparr>mutex := True\<rparr>)\<rparr>)
         = w\<lparr>submitted := submitted w @ [(originalUri (sessions w a), edit)]\<rparr>"
proof -
  let ?w1 = "w\<lparr>sessions := (sessions w)(a := (sessions w a)\<lparr>mutex := True\<rparr>)\<rparr>"
  have "docs ?w1 (originalUri (sessions ?w1 a)) = Some originalDoc"
    and "buildEdit blocks originalDoc (regions (sessions ?w1 a)) = Inr edit"
    and "store (originalUri (sessions ?w1 a)) originalDoc edit = None"
    using assms(2,3,4) by simp_all
  from callbackResume_rejected [where store = store, OF this] show ?thesis
    using assms(1) by (simp add: mutex_clear_idle)
qed

lemma resume_idle_applied:
  assumes "\<not> mutex (sessions w a)" and "docs w (originalUri (sessions w a)) = Some originalDoc"
    and "buildEdit blocks originalDoc (regions (sessions w a)) = Inr edit"
    and "store (originalUri (sessions w a)) originalDoc edit = Some newDoc"
  shows "callbackResume store a blocks
           (w\<lparr>sessions := (sessions w)(a := (sessions w a)\<lparr>mutex := True\<rparr>)\<rparr>)
         = w\<lparr>submitted := submitted w @ [(originalUri (sessions w a), edit)],
             docs := (docs w)(originalUri (sessions w a) \<mapsto> newDoc),
             saved := saved w @ [originalUri (sessions w a)],
             messages := messages w
               @ sync_messages (snd (shiftCalculus blocks 0 (regions (sessions w a)))),
             sessions := (sessions w)(a := (sessions w a)
               \<lparr>regions := fst (shiftCalculus blocks 0 (regions (sessions w a)))\<rparr>)\<rparr>"
proof -
  let ?w1 = "w\<lparr>sessions := (sessions w)(a := (sessions w a)\<lparr>mutex := True\<rparr>)\<rparr>"
  have "docs ?w1 (originalUri (sessions ?w1 a)) = Some originalDoc"
    and "buildEdit blocks originalDoc (regions (sessions ?w1 a)) = Inr edit"
    and "store (originalUri (sessions ?w1 a)) originalDoc edit = Some newDoc"
    using assms(2,3,4) by simp_all
  from callbackResume_applied [where store = store, OF this] show ?thesis
    using assms(1) by (simp add: mutex_clear_regions)
qed

lemma parse_deleted: "parseSandboxText deleted_text = Inr [(''region_0'', ''a'' @ [LF, LF] @ ''c'')]"
  by (simp add: deleted_text_def grammar_defs)

text \<open>
  Claim C7. A timer \<open>h\<close> of a session fires; \<open>w0\<close> is the world with the handle
  consumed and \<open>w1\<close> is \<open>w0\<close> with the busy flag of the session set.
  \<^item> When the flag is set, the callback returns at its first step and the firing changes
    nothing but the consumed handle: no parse, no edit, no range changes, no new timer.
  \<^item> Otherwise the buffer is parsed. When the count guard fails, the firing only shows
    the separator error. When it passes, the first step leaves the callback suspended in
    \<open>w1\<close>, the flag set, where another timer of the session that fires is dropped; the
    firing is the callback resumed in \<open>w1\<close>, and its whole effect is given for every
    outcome: the file is missing or the edit cannot be built (the error is logged), the
    Document Store rejects the edit (it is logged as submitted), or the edit is applied
    (the file is replaced and saved, and the regions are those of the shift calculus).
    After the firing the flag is clear, and the live flags, the registry and the other
    pending timers are as before.
  \<^item> In whatever world the callback is resumed, it ends with the flag clear and leaves
    the live flags, the registry and the pending timers as they are.
\<close>

theorem live_cycle_mutex:
  assumes pending: "timers w h = Some (a, docKey)"
    and w0: "w0 = w\<lparr>timers := (timers w)(h := None)\<rparr>"
    and w1: "w1 = w0\<lparr>sessions := (sessions w0)(a := (sessions w0 a)\<lparr>mutex := True\<rparr>)\<rparr>"
  shows
    "(mutex (sessions w a) \<longrightarrow>
        callbackStart a docKey w0 = (w0, None) \<and> timerFires store h w = w0) \<and>
     (\<not> mutex (sessions w a) \<longrightarrow>
        (\<exists>blocks. parseSandboxText (buffers w docKey) = Inr blocks) \<and>
        (\<forall>blocks. parseSandboxText (buffers w docKey) = Inr blocks \<longrightarrow>
           (length blocks \<noteq> length (regions (sessions w a)) \<longrightarrow>
              callbackStart a docKey w0 = (w0\<lparr>messages := messages w @ [SeparatorDeleted]\<rparr>, None) \<and>
              timerFires store h w = w0\<lparr>messages := messages w @ [SeparatorDeleted]\<rparr>) \<and>
           (length blocks = length (regions (sessions w a)) \<longrightarrow>
              callbackStart a docKey w0 = (w1, Some blocks) \<and>
              mutex (sessions w1 a) \<and>
              (\<forall>h' docKey'. timers w1 h' = Some (a, docKey') \<longrightarrow>
                 timerFires store h' w1 = w1\<lparr>timers := (timers w1)(h' := None)\<rparr>) \<and>
              timerFires store h w = callbackResume store a blocks w1 \<and>
              (docs w (originalUri (sessions w a)) = None \<longrightarrow>
                 timerFires store h w = w0\<lparr>messages := messages w @ [SyncError FileNotFound]\<rparr>) \<and>
              (\<forall>originalDoc. docs w (originalUri (sessions w a)) = Some originalDoc \<longrightarrow>
                 (\<forall>e. buildEdit blocks originalDoc (regions (sessions w a)) = Inl e \<longrightarrow>
                    timerFires store h w = w0\<lparr>messages := messages w @ [SyncError e]\<rparr>) \<and>
                 (\<forall>edit. buildEdit blocks originalDoc (regions (sessions w a)) = Inr edit \<longrightarrow>
                    (store (originalUri (sessions w a)) originalDoc edit = None \<longrightarrow>
                       timerFires store h w
                         = w0\<lparr>submitted := submitted w @ [(originalUri (sessions w a), edit)]\<rparr>) \<and>
                    (\<forall>newDoc. store (originalUri (sessions w a)) originalDoc edit = Some newDoc \<longrightarrow>
                       timerFires store h w
                         = w0\<lparr>submitted := submitted w @ [(originalUri (sessions w a), edit)],
                              docs := (docs w)(originalUri (sessions w a) \<mapsto> newDoc),
                              saved := saved w @ [originalUri (sessions w a)],
                              messages := messages w
                                @ sync_messages (snd (shiftCalculus blocks 0 (regions (sessions w a)))),
                              sessions := (sessions w)(a := (sessions w a)
                                \<lparr>regions := fst (shiftCalculus blocks 0 (regions (sessions w a)))\<rparr>)\<rparr>))))) \<and>
        \<not> mutex (sessions (timerFires store h w) a) \<and>
        (\<forall>b. isLive (sessions (timerFires store h w) b) = isLive (sessions w b)) \<and>
        sandboxMap (timerFires store h w) = sandboxMap w \<and>
        timers (timerFires store h w) = (timers w)(h := None)) \<and>
     (\<not> mutex (sessions (callbackResume store a parsedCodeBlocks w') a) \<and>
      (\<forall>b. isLive (sessions (callbackResume store a parsedCodeBlocks w') b) = isLive (sessions w' b)) \<and>
      sandboxMap (callbackResume store a parsedCodeBlocks w') = sandboxMap w' \<and>
      timers (callbackResume store a parsedCodeBlocks w') = timers w')"
proof -
  have fire: "timerFires store h w = timerCallback store a docKey w0"
    unfolding w0 using pending by (rule timerFires_pending)
  have f0: "sessions w0 = sessions w" "buffers w0 = buffers w" "docs w0 = docs w"
    "messages w0 = messages w" "submitted w0 = submitted w" "saved w0 = saved w"
    "timers w0 = (timers w)(h := None)" "sandboxMap w0 = sandboxMap w"
    by (simp_all add: w0)
  have busy_case: "callbackStart a docKey w0 = (w0, None) \<and> timerFires store h w = w0"
    if "mutex (sessions w a)"
    using that by (simp add: fire f0 callbackStart_busy timerCallback_busy)
  have total: "\<exists>blocks. parseSandboxText (buffers w docKey) = Inr blocks"
    by (rule parse_total)
  have mismatch:
    "callbackStart a docKey w0 = (w0\<lparr>messages := messages w @ [SeparatorDeleted]\<rparr>, None) \<and>
     timerFires store h w = w0\<lparr>messages := messages w @ [SeparatorDeleted]\<rparr>"
    if "\<not> mutex (sessions w a)" and "parseSandboxText (buffers w docKey) = Inr blocks"
      and "length blocks \<noteq> length (regions (sessions w a))" for blocks
  proof -
    have h: "\<not> mutex (sessions w0 a)" "parseSandboxText (buffers w0 docKey) = Inr blocks"
      "length blocks \<noteq> length (regions (sessions w0 a))"
      using that by (simp_all add: f0)
    show ?thesis
      using callbackStart_mismatch [OF h] timerCallback_mismatch [OF h, of store]
      by (simp add: fire f0)
  qed
  have equal:
    "callbackStart a docKey w0 = (w1, Some blocks) \<and>
     mutex (sessions w1 a) \<and>
     (\<forall>h' docKey'. timers w1 h' = Some (a, docKey') \<longrightarrow>
        timerFires store h' w1 = w1\<lparr>timers := (timers w1)(h' := None)\<rparr>) \<and>
     timerFires store h w = callbackResume store a blocks w1 \<and>
     (docs w (originalUri (sessions w a)) = None \<longrightarrow>
        timerFires store h w = w0\<lparr>messages := messages w @ [SyncError FileNotFound]\<rparr>) \<and>
     (\<forall>originalDoc. docs w (originalUri (sessions w a)) = Some originalDoc \<longrightarrow>
        (\<forall>e. buildEdit blocks originalDoc (regions (sessions w a)) = Inl e \<longrightarrow>
           timerFires store h w = w0\<lparr>messages := messages w @ [SyncError e]\<rparr>) \<and>
        (\<forall>edit. buildEdit blocks originalDoc (regions (sessions w a)) = Inr edit \<longrightarrow>
           (store (originalUri (sessions w a)) originalDoc edit = None \<longrightarrow>
              timerFires store h w
                = w0\<lparr>submitted := submitted w @ [(originalUri (sessions w a), edit)]\<rparr>) \<and>
           (\<forall>newDoc. store (originalUri (sessions w a)) originalDoc edit = Some newDoc \<longrightarrow>
              timerFires store h w
                = w0\<lparr>submitted := submitted w @ [(originalUri (sessions w a), edit)],
                     docs := (docs w)(originalUri (sessions w a) \<mapsto> newDoc),
                     saved := saved w @ [originalUri (sessions w a)],
                     messages := messages w
                       @ sync_messages (snd (shiftCalculus blocks 0 (regions (sessions w a)))),
                     sessions := (sessions w)(a := (sessions w a)
                       \<lparr>regions := fst (shiftCalculus blocks 0 (regions (sessions w a)))\<rparr>)\<rparr>)))"
    if idle: "\<not> mutex (sessions w a)" and parse: "parseSandboxText (buffers w docKey) = Inr blocks"
      and len: "length blocks = length (regions (sessions w a))" for blocks
  proof -
    have h: "\<not> mutex (sessions w0 a)" "parseSandboxText (buffers w0 docKey) = Inr blocks"
      "length blocks = length (regions (sessions w0 a))"
      using that by (simp_all add: f0)
    have idle0: "\<not> mutex (sessions w0 a)" by (rule h(1))
    have e1: "callbackStart a docKey w0 = (w1, Some blocks)"
      unfolding w1 by (rule callbackStart_suspend [OF h])
    have e2: "mutex (sessions w1 a)"
      by (simp add: w1)
    have e3: "timerFires store h' w1 = w1\<lparr>timers := (timers w1)(h' := None)\<rparr>"
      if "timers w1 h' = Some (a, docKey')" for h' docKey'
      using timerFires_pending [OF that, of store] e2 by (simp add: timerCallback_busy)
    have e4: "timerFires store h w = callbackResume store a blocks w1"
      unfolding fire w1 by (rule timerCallback_suspend [OF h])
    have e5: "timerFires store h w = w0\<lparr>messages := messages w @ [SyncError FileNotFound]\<rparr>"
      if "docs w (originalUri (sessions w a)) = None"
    proof -
      have "docs w0 (originalUri (sessions w0 a)) = None"
        using that by (simp add: f0)
      from resume_idle_no_file [OF idle0 this, of store blocks] show ?thesis
        unfolding e4 w1 by (simp add: f0)
    qed
    have e6: "timerFires store h w = w0\<lparr>messages := messages w @ [SyncError e]\<rparr>"
      if "docs w (originalUri (sessions w a)) = Some originalDoc"
        and "buildEdit blocks originalDoc (regions (sessions w a)) = Inl e" for originalDoc e
    proof -
      have "docs w0 (originalUri (sessions w0 a)) = Some originalDoc"
        and "buildEdit blocks originalDoc (regions (sessions w0 a)) = Inl e"
        using that by (simp_all add: f0)
      from resume_idle_throws [OF idle0 this, of store] show ?thesis
        unfolding e4 w1 by (simp add: f0)
    qed
    have e7: "timerFires store h w
                = w0\<lparr>submitted := submitted w @ [(originalUri (sessions w a), edit)]\<rparr>"
      if "docs w (originalUri (sessions w a)) = Some originalDoc"
        and "buildEdit blocks originalDoc (regions (sessions w a)) = Inr edit"
        and "store (originalUri (sessions w a)) originalDoc edit = None" for originalDoc edit
    proof -
      have "docs w0 (originalUri (sessions w0 a)) = Some originalDoc"
        and "buildEdit blocks originalDoc (regions (sessions w0 a)) = Inr edit"
        and "store (originalUri (sessions w0 a)) originalDoc edit = None"
        using that by (simp_all add: f0)
      from resume_idle_rejected [where store = store, OF idle0 this] show ?thesis
        unfolding e4 w1 by (simp add: f0)
    qed
    have e8: "timerFires store h w
                = w0\<lparr>submitted := submitted w @ [(originalUri (sessions w a), edit)],
                     docs := (docs w)(originalUri (sessions w a) \<mapsto> newDoc),
                     saved := saved w @ [originalUri (sessions w a)],
                     messages := messages w
                       @ sync_messages (snd (shiftCalculus blocks 0 (regions (sessions w a)))),
                     sessions := (sessions w)(a := (sessions w a)
                       \<lparr>regions := fst (shiftCalculus blocks 0 (regions (sessions w a)))\<rparr>)\<rparr>"
      if "docs w (originalUri (sessions w a)) = Some originalDoc"
        and "buildEdit blocks originalDoc (regions (sessions w a)) = Inr edit"
        and "store (originalUri (sessions w a)) originalDoc edit = Some newDoc"
      for originalDoc edit newDoc
    proof -
      have "docs w0 (originalUri (sessions w0 a)) = Some originalDoc"
        and "buildEdit blocks originalDoc (regions (sessions w0 a)) = Inr edit"
        and "store (originalUri (sessions w0 a)) originalDoc edit = Some newDoc"
        using that by (simp_all add: f0)
      from resume_idle_applied [where store = store, OF idle0 this] show ?thesis
        unfolding e4 w1 by (simp add: f0)
    qed
    show ?thesis
      using e1 e2 e3 e4 e5 e6 e7 e8 by (intro conjI allI impI) blast+
  qed
  have resume:
    "\<not> mutex (sessions (callbackResume store a bs w') a) \<and>
     (\<forall>b. isLive (sessions (callbackResume store a bs w') b) = isLive (sessions w' b)) \<and>
     sandboxMap (callbackResume store a bs w') = sandboxMap w' \<and>
     timers (callbackResume store a bs w') = timers w'" for bs w'
    by (rule callbackResume_frame)
  have frame:
    "\<not> mutex (sessions (timerFires store h w) a) \<and>
     (\<forall>b. isLive (sessions (timerFires store h w) b) = isLive (sessions w b)) \<and>
     sandboxMap (timerFires store h w) = sandboxMap w \<and>
     timers (timerFires store h w) = (timers w)(h := None)"
    if idle: "\<not> mutex (sessions w a)"
  proof -
    from total obtain blocks where parse: "parseSandboxText (buffers w docKey) = Inr blocks" ..
    show ?thesis
    proof (cases "length blocks = length (regions (sessions w a))")
      case True
      from equal [OF idle parse True] have "timerFires store h w = callbackResume store a blocks w1"
        by (elim conjE)
      with resume [of blocks w1] show ?thesis
        by (simp add: w1 f0)
    next
      case False
      from mismatch [OF idle parse False] idle show ?thesis
        by (simp add: f0)
    qed
  qed
  have idle_case:
    "(\<exists>blocks. parseSandboxText (buffers w docKey) = Inr blocks) \<and>
     (\<forall>blocks. parseSandboxText (buffers w docKey) = Inr blocks \<longrightarrow>
        (length blocks \<noteq> length (regions (sessions w a)) \<longrightarrow>
           callbackStart a docKey w0 = (w0\<lparr>messages := messages w @ [SeparatorDeleted]\<rparr>, None) \<and>
           timerFires store h w = w0\<lparr>messages := messages w @ [SeparatorDeleted]\<rparr>) \<and>
        (length blocks = length (regions (sessions w a)) \<longrightarrow>
           callbackStart a docKey w0 = (w1, Some blocks) \<and>
           mutex (sessions w1 a) \<and>
           (\<forall>h' docKey'. timers w1 h' = Some (a, docKey') \<longrightarrow>
              timerFires store h' w1 = w1\<lparr>timers := (timers w1)(h' := None)\<rparr>) \<and>
           timerFires store h w = callbackResume store a blocks w1 \<and>
           (docs w (originalUri (sessions w a)) = None \<longrightarrow>
              timerFires store h w = w0\<lparr>messages := messages w @ [SyncError FileNotFound]\<rparr>) \<and>
           (\<forall>originalDoc. docs w (originalUri (sessions w a)) = Some originalDoc \<longrightarrow>
              (\<forall>e. buildEdit blocks originalDoc (regions (sessions w a)) = Inl e \<longrightarrow>
                 timerFires store h w = w0\<lparr>messages := messages w @ [SyncError e]\<rparr>) \<and>
              (\<forall>edit. buildEdit blocks originalDoc (regions (sessions w a)) = Inr edit \<longrightarrow>
                 (store (originalUri (sessions w a)) originalDoc edit = None \<longrightarrow>
                    timerFires store h w
                      = w0\<lparr>submitted := submitted w @ [(originalUri (sessions w a), edit)]\<rparr>) \<and>
                 (\<forall>newDoc. store (originalUri (sessions w a)) originalDoc edit = Some newDoc \<longrightarrow>
                    timerFires store h w
                      = w0\<lparr>submitted := submitted w @ [(originalUri (sessions w a), edit)],
                           docs := (docs w)(originalUri (sessions w a) \<mapsto> newDoc),
                           saved := saved w @ [originalUri (sessions w a)],
                           messages := messages w
                             @ sync_messages (snd (shiftCalculus blocks 0 (regions (sessions w a)))),
                           sessions := (sessions w)(a := (sessions w a)
                             \<lparr>regions := fst (shiftCalculus blocks 0 (regions (sessions w a)))\<rparr>)\<rparr>))))) \<and>
     \<not> mutex (sessions (timerFires store h w) a) \<and>
     (\<forall>b. isLive (sessions (timerFires store h w) b) = isLive (sessions w b)) \<and>
     sandboxMap (timerFires store h w) = sandboxMap w \<and>
     timers (timerFires store h w) = (timers w)(h := None)"
    if idle: "\<not> mutex (sessions w a)"
  proof (rule conjI [OF total], rule conjI [OF _ frame [OF idle]], intro allI impI conjI)
    fix blocks
    assume parse: "parseSandboxText (buffers w docKey) = Inr blocks"
    show "length blocks \<noteq> length (regions (sessions w a)) \<Longrightarrow>
       callbackStart a docKey w0 = (w0\<lparr>messages := messages w @ [SeparatorDeleted]\<rparr>, None)"
      by (rule mismatch [OF idle parse, THEN conjunct1])
    show "length blocks \<noteq> length (regions (sessions w a)) \<Longrightarrow>
       timerFires store h w = w0\<lparr>messages := messages w @ [SeparatorDeleted]\<rparr>"
      by (rule mismatch [OF idle parse, THEN conjunct2])
  qed (use equal [OF idle] in blast)+
  show ?thesis
  proof (intro conjI)
    show "mutex (sessions w a) \<longrightarrow>
        callbackStart a docKey w0 = (w0, None) \<and> timerFires store h w = w0"
      by (rule impI) (rule busy_case)
  qed (rule impI, rule idle_case, assumption, (rule resume [THEN conjunct1]
        | rule resume [THEN conjunct2, THEN conjunct1]
        | rule resume [THEN conjunct2, THEN conjunct2, THEN conjunct1]
        | rule resume [THEN conjunct2, THEN conjunct2, THEN conjunct2])+)
qed

theorem live_cycle_mutex_witness:
  "timers edited_world 0 = Some (0, ''untitled:Untitled-1'') \<and>
   \<not> mutex (sessions edited_world 0) \<and>
   callbackStart 0 ''untitled:Untitled-1'' (edited_world\<lparr>timers := (timers edited_world)(0 := None)\<rparr>)
     = (suspended_world, Some [(''region_0'', ''A''), (''region_1'', ''c'')]) \<and>
   mutex (sessions suspended_world 0) \<and>
   submitted suspended_world = [] \<and>
   timers (userEdit ''untitled:Untitled-1'' stale_text suspended_world) 1
     = Some (0, ''untitled:Untitled-1'') \<and>
   timerFires lineStore 1 (userEdit ''untitled:Untitled-1'' stale_text suspended_world)
     = (userEdit ''untitled:Untitled-1'' stale_text suspended_world)
         \<lparr>timers := (timers (userEdit ''untitled:Untitled-1'' stale_text suspended_world))(1 := None)\<rparr> \<and>
   timerFires lineStore 0 edited_world
     = callbackResume lineStore 0 [(''region_0'', ''A''), (''region_1'', ''c'')] suspended_world \<and>
   docs (timerFires lineStore 0 edited_world) ''file:///w.ts''
     = Some \<lparr>docLines = [''A'', ''b'', ''c''], docEol = [LF]\<rparr> \<and>
   submitted (timerFires lineStore 0 edited_world)
     = [(''file:///w.ts'',
         [\<lparr>rStartLine = 0, rStartChar = 0, rEndLine = 0, rEndChar = 1, newText = Some ''A''\<rparr>,
          \<lparr>rStartLine = 2, rStartChar = 0, rEndLine = 2, rEndChar = 1, newText = Some ''c''\<rparr>])] \<and>
   saved (timerFires lineStore 0 edited_world) = [''file:///w.ts''] \<and>
   messages (timerFires lineStore 0 edited_world) = [] \<and>
   map originalRange (regions (sessions (timerFires lineStore 0 edited_world) 0))
     = [\<lparr>startLine = 0, endLine = 0\<rparr>, \<lparr>startLine = 2, endLine = 2\<rparr>] \<and>
   \<not> mutex (sessions (timerFires lineStore 0 edited_world) 0) \<and>
   timers (timerFires lineStore 0 edited_world) 0 = None \<and>
   timers broken_world 0 = Some (0, ''untitled:Untitled-1'') \<and>
   \<not> mutex (sessions broken_world 0) \<and>
   messages (timerFires lineStore 0 broken_world) = [SeparatorDeleted] \<and>
   submitted (timerFires lineStore 0 broken_world) = [] \<and>
   docs (timerFires lineStore 0 broken_world) ''file:///w.ts'' = Some witness_doc \<and>
   \<not> mutex (sessions (timerFires lineStore 0 broken_world) 0) \<and>
   isLive (sessions (timerFires lineStore 0 broken_world) 0) \<and>
   sandboxMap (timerFires lineStore 0 broken_world) ''untitled:Untitled-1'' = Some 0"
proof -
  let ?k = "''untitled:Untitled-1''"
  let ?bs = "[(''region_0'', ''A''), (''region_1'', ''c'')]"
  let ?e0 = "edited_world\<lparr>timers := (timers edited_world)(0 := None)\<rparr>"
  let ?e1 = "?e0\<lparr>sessions := (sessions ?e0)(0 := (sessions ?e0 0)\<lparr>mutex := True\<rparr>)\<rparr>"
  let ?edit = "[\<lparr>rStartLine = 0, rStartChar = 0, rEndLine = 0, rEndChar = 1, newText = Some ''A''\<rparr>,
          \<lparr>rStartLine = 2, rStartChar = 0, rEndLine = 2, rEndChar = 1, newText = Some ''c''\<rparr>]"
  let ?new = "\<lparr>docLines = [''A'', ''b'', ''c''], docEol = [LF]\<rparr>"
  have pe: "timers edited_world 0 = Some (0, ?k)"
    by (simp add: edited_world_def userEdit_def changeListener_def world_defs)
  have ie: "\<not> mutex (sessions edited_world 0)"
    by (simp add: edited_world_def userEdit_def changeListener_def world_defs)
  have parse: "parseSandboxText (buffers edited_world ?k) = Inr ?bs"
    by (simp add: edited_world_def userEdit_def changeListener_def world_defs
        edited_text_def grammar_defs)
  have len: "length ?bs = length (regions (sessions edited_world 0))"
    by (simp add: edited_world_def userEdit_def changeListener_def world_defs)
  have uri: "originalUri (sessions edited_world 0) = ''file:///w.ts''"
    and regs: "regions (sessions edited_world 0) = witness_regions"
    and doc: "docs edited_world ''file:///w.ts'' = Some witness_doc"
    and logs: "submitted edited_world = []" "saved edited_world = []" "messages edited_world = []"
    by (simp_all add: edited_world_def userEdit_def changeListener_def witness_world_def
        witness_session_def)
  have doc': "docs edited_world (originalUri (sessions edited_world 0)) = Some witness_doc"
    by (simp add: uri doc)
  have build: "buildEdit ?bs witness_doc (regions (sessions edited_world 0)) = Inr ?edit"
    by (simp add: regs witness_regions_def witness_doc_def store_defs Let_def)
  have store: "lineStore (originalUri (sessions edited_world 0)) witness_doc ?edit = Some ?new"
    by (simp add: witness_doc_def lineStore_def)
  have shift: "shiftCalculus ?bs 0 (regions (sessions edited_world 0))
      = (witness_regions, None)"
    by (simp add: regs witness_regions_def Let_def)
  note run = live_cycle_mutex [where store = lineStore and w' = edited_world
      and parsedCodeBlocks = "[]", OF pe refl refl,
      THEN conjunct2, THEN conjunct1, THEN mp, OF ie,
      THEN conjunct2, THEN conjunct1, THEN spec, THEN mp, OF parse,
      THEN conjunct2, THEN mp, OF len]
  have start: "callbackStart 0 ?k ?e0 = (?e1, Some ?bs)"
    by (rule run [THEN conjunct1])
  then have susp: "suspended_world = ?e1"
    by (simp add: suspended_world_def)
  have s1: "mutex (sessions ?e1 0)"
    by (rule run [THEN conjunct2, THEN conjunct1])
  have s2: "timerFires lineStore 0 edited_world = callbackResume lineStore 0 ?bs ?e1"
    by (rule run [THEN conjunct2, THEN conjunct2, THEN conjunct2, THEN conjunct1])
  have s3: "timerFires lineStore 0 edited_world
      = ?e0\<lparr>submitted := submitted edited_world @ [(originalUri (sessions edited_world 0), ?edit)],
            docs := (docs edited_world)(originalUri (sessions edited_world 0) \<mapsto> ?new),
            saved := saved edited_world @ [originalUri (sessions edited_world 0)],
            messages := messages edited_world
              @ sync_messages (snd (shiftCalculus ?bs 0 (regions (sessions edited_world 0)))),
            sessions := (sessions edited_world)(0 := (sessions edited_world 0)
              \<lparr>regions := fst (shiftCalculus ?bs 0 (regions (sessions edited_world 0)))\<rparr>)\<rparr>"
    by (rule run [THEN conjunct2, THEN conjunct2, THEN conjunct2, THEN conjunct2, THEN conjunct2,
          THEN spec, THEN mp, OF doc', THEN conjunct2, THEN spec, THEN mp, OF build,
          THEN conjunct2, THEN spec, THEN mp, OF store])
  let ?late = "userEdit ?k stale_text ?e1"
  have pl: "timers ?late 1 = Some (0, ?k)"
    by (simp add: edited_world_def userEdit_def changeListener_def world_defs)
  have ml: "mutex (sessions ?late 0)"
    by (simp add: edited_world_def userEdit_def changeListener_def world_defs)
  have dropped: "timerFires lineStore 1 ?late = ?late\<lparr>timers := (timers ?late)(1 := None)\<rparr>"
    by (rule live_cycle_mutex [where store = lineStore and w' = edited_world
          and parsedCodeBlocks = "[]", OF pl refl refl, THEN conjunct1, THEN mp, OF ml,
          THEN conjunct2])
  have pb: "timers broken_world 0 = Some (0, ?k)"
    by (simp add: broken_world_def userEdit_def changeListener_def world_defs)
  have ib: "\<not> mutex (sessions broken_world 0)"
    by (simp add: broken_world_def userEdit_def changeListener_def world_defs)
  have parse_b: "parseSandboxText (buffers broken_world ?k) = Inr [(''region_0'', ''a'' @ [LF, LF] @ ''c'')]"
    by (simp add: broken_world_def userEdit_def changeListener_def world_defs parse_deleted)
  have len_b: "length [(''region_0'', ''a'' @ [LF, LF] @ ''c'')] \<noteq> length (regions (sessions broken_world 0))"
    by (simp add: broken_world_def userEdit_def changeListener_def world_defs)
  note fail = live_cycle_mutex [where store = lineStore and w' = edited_world
      and parsedCodeBlocks = "[]", OF pb refl refl,
      THEN conjunct2, THEN conjunct1, THEN mp, OF ib]
  have b1: "timerFires lineStore 0 broken_world
      = broken_world\<lparr>timers := (timers broken_world)(0 := None),
                     messages := messages broken_world @ [SeparatorDeleted]\<rparr>"
    by (rule fail [THEN conjunct2, THEN conjunct1, THEN spec, THEN mp, OF parse_b,
          THEN conjunct1, THEN mp, OF len_b, THEN conjunct2])
  have b2: "\<not> mutex (sessions (timerFires lineStore 0 broken_world) 0)"
    by (rule fail [THEN conjunct2, THEN conjunct2, THEN conjunct1])
  have b3: "isLive (sessions (timerFires lineStore 0 broken_world) 0) = isLive (sessions broken_world 0)"
    by (rule fail [THEN conjunct2, THEN conjunct2, THEN conjunct2, THEN conjunct1, THEN spec])
  have b4: "sandboxMap (timerFires lineStore 0 broken_world) = sandboxMap broken_world"
    by (rule fail [THEN conjunct2, THEN conjunct2, THEN conjunct2, THEN conjunct2, THEN conjunct1])
  have bw: "messages broken_world = []" "submitted broken_world = []"
    "docs broken_world ''file:///w.ts'' = Some witness_doc" "isLive (sessions broken_world 0)"
    "sandboxMap broken_world ?k = Some 0"
    by (simp_all add: broken_world_def userEdit_def changeListener_def witness_world_def
        witness_session_def)
  have c1: "submitted ?e1 = []"
    by (simp add: logs)
  have c2: "docs (timerFires lineStore 0 edited_world) ''file:///w.ts'' = Some ?new"
    unfolding s3 by (simp add: uri)
  have c3: "submitted (timerFires lineStore 0 edited_world) = [(''file:///w.ts'', ?edit)]"
    unfolding s3 by (simp add: uri logs)
  have c4: "saved (timerFires lineStore 0 edited_world) = [''file:///w.ts'']"
    unfolding s3 by (simp add: uri logs)
  have c5: "messages (timerFires lineStore 0 edited_world) = []"
    unfolding s3 by (simp add: shift logs sync_messages_def)
  have c6: "map originalRange (regions (sessions (timerFires lineStore 0 edited_world) 0))
     = [\<lparr>startLine = 0, endLine = 0\<rparr>, \<lparr>startLine = 2, endLine = 2\<rparr>]"
    unfolding s3 by (simp add: shift witness_regions_def)
  have c7: "\<not> mutex (sessions (timerFires lineStore 0 edited_world) 0)"
    unfolding s3 using ie by simp
  have c8: "timers (timerFires lineStore 0 edited_world) 0 = None"
    unfolding s3 by simp
  have d1: "messages (timerFires lineStore 0 broken_world) = [SeparatorDeleted]"
    and d2: "submitted (timerFires lineStore 0 broken_world) = []"
    and d3: "docs (timerFires lineStore 0 broken_world) ''file:///w.ts'' = Some witness_doc"
    unfolding b1 by (simp_all add: bw)
  have d4: "isLive (sessions (timerFires lineStore 0 broken_world) 0)"
    unfolding b3 by (rule bw(4))
  have d5: "sandboxMap (timerFires lineStore 0 broken_world) ?k = Some 0"
    unfolding b4 by (rule bw(5))
  show ?thesis
    unfolding susp
    by (intro conjI pe ie start s1 c1 pl dropped s2 c2 c3 c4 c5 c6 c7 c8 pb ib d1 d2 d3 b2 d4 d5)
qed

section \<open>Session termination and pending timers\<close>

lemma applySandboxCmd_frame:
  "timers (applySandboxCmd editor w) = timers w \<and>
   sessions (applySandboxCmd editor w) = sessions w \<and>
   buffers (applySandboxCmd editor w) = buffers w \<and>
   docs (applySandboxCmd editor w) = docs w \<and>
   submitted (applySandboxCmd editor w) = submitted w \<and>
   saved (applySandboxCmd editor w) = saved w"
  by (simp add: applySandboxCmd_def Let_def split: option.split)

lemma discardSandboxCmd_frame:
  "timers (discardSandboxCmd store editor w) = timers w \<and>
   sessions (discardSandboxCmd store editor w) = sessions w \<and>
   buffers (discardSandboxCmd store editor w) = buffers w"
  by (simp add: discardSandboxCmd_def Let_def split: option.split sum.split)

lemma apply_ignores_registry:
  "applySandboxSegmentsToOriginal store a docKey (w\<lparr>sandboxMap := m\<rparr>)
     = (fst (applySandboxSegmentsToOriginal store a docKey w)\<lparr>sandboxMap := m\<rparr>,
        snd (applySandboxSegmentsToOriginal store a docKey w))"
  by (simp add: applySandboxSegmentsToOriginal_unfold Let_def
      split: option.split sum.split prod.split)

lemma timerCallback_ignores_registry:
  "timerCallback store a docKey (w\<lparr>sandboxMap := m\<rparr>)
     = (timerCallback store a docKey w)\<lparr>sandboxMap := m\<rparr>"
proof (cases "mutex (sessions w a)")
  case True
  then show ?thesis by (simp add: timerCallback_unfold)
next
  case False
  obtain w2 err where run: "applySandboxSegmentsToOriginal store a docKey (busy a w) = (w2, err)"
    by (cases "applySandboxSegmentsToOriginal store a docKey (busy a w)")
  have "busy a (w\<lparr>sandboxMap := m\<rparr>) = (busy a w)\<lparr>sandboxMap := m\<rparr>"
    by (simp add: busy_def)
  then have run': "applySandboxSegmentsToOriginal store a docKey (busy a (w\<lparr>sandboxMap := m\<rparr>))
      = (w2\<lparr>sandboxMap := m\<rparr>, err)"
    using apply_ignores_registry [where w = "busy a w" and m = m and store = store and a = a and docKey = docKey] run by simp
  from False have idle': "\<not> mutex (sessions (w\<lparr>sandboxMap := m\<rparr>) a)" by simp
  show ?thesis
    unfolding timerCallback_idle [OF False run] timerCallback_idle [OF idle' run']
    by simp
qed

lemma timers_sandboxMap_commute:
  "w\<lparr>sandboxMap := m, timers := t\<rparr> = w\<lparr>timers := t, sandboxMap := m\<rparr>"
  by (cases w) simp

lemma timerFires_ignores_registry:
  "timerFires store h (w\<lparr>sandboxMap := m\<rparr>) = (timerFires store h w)\<lparr>sandboxMap := m\<rparr>"
proof (cases "timers w h")
  case None
  then show ?thesis by (simp add: timerFires_def)
next
  case (Some p)
  obtain a docKey where p: "p = (a, docKey)" by (cases p)
  have "timerFires store h (w\<lparr>sandboxMap := m\<rparr>)
          = timerCallback store a docKey ((w\<lparr>timers := (timers w)(h := None)\<rparr>)\<lparr>sandboxMap := m\<rparr>)"
    using Some p by (simp add: timerFires_def timers_sandboxMap_commute)
  also have "\<dots> = (timerCallback store a docKey (w\<lparr>timers := (timers w)(h := None)\<rparr>))\<lparr>sandboxMap := m\<rparr>"
    by (rule timerCallback_ignores_registry)
  also have "\<dots> = (timerFires store h w)\<lparr>sandboxMap := m\<rparr>"
    using Some p by (simp add: timerFires_def)
  finally show ?thesis .
qed

lemma parse_edited:
  "parseSandboxText edited_text = Inr [(''region_0'', ''A''), (''region_1'', ''c'')]"
  by (simp add: edited_text_def grammar_defs)

lemma parse_stale:
  "parseSandboxText stale_text = Inr [(''region_0'', ''Z''), (''region_1'', ''c'')]"
  by (simp add: stale_text_def grammar_defs)

lemma synced_world_facts:
  "docs synced_world ''file:///w.ts'' = Some \<lparr>docLines = [''A'', ''b'', ''c''], docEol = [LF]\<rparr>"
  "sandboxMap synced_world ''untitled:Untitled-1'' = Some 0"
  "timers synced_world = Map.empty"
  "nextTimer synced_world = 1"
  "sessions synced_world 0 = witness_session\<lparr>debounce := Some 0\<rparr>"
  "backups synced_world = Map.empty"
  "messages synced_world = []"
  by (simp_all add: synced_world_def cycle_defs world_defs parse_edited store_defs Let_def fun_eq_iff)

lemma pending_world_facts:
  "docs pending_world ''file:///w.ts'' = Some \<lparr>docLines = [''A'', ''b'', ''c''], docEol = [LF]\<rparr>"
  "sandboxMap pending_world ''untitled:Untitled-1'' = Some 0"
  "timers pending_world 1 = Some (0, ''untitled:Untitled-1'')"
  "timers pending_world (Suc 0) = Some (0, ''untitled:Untitled-1'')"
  "sessions pending_world 0 = witness_session\<lparr>debounce := Some 1\<rparr>"
  "buffers pending_world ''untitled:Untitled-1'' = stale_text"
  "backups pending_world = Map.empty"
  by (simp_all add: pending_world_def userEdit_def changeListener_def synced_world_facts
      witness_session_def Let_def)

lemma revert_then_timer:
  "sandboxMap (discardSandboxCmd lineStore (Some ''untitled:Untitled-1'') pending_world)
     ''untitled:Untitled-1'' = None"
  "timers (discardSandboxCmd lineStore (Some ''untitled:Untitled-1'') pending_world) 1
     = Some (0, ''untitled:Untitled-1'')"
  "map_option docLines (docs (discardSandboxCmd lineStore (Some ''untitled:Untitled-1'') pending_world)
     ''file:///w.ts'') = Some [''a'', ''b'', ''c'']"
  "map_option docLines (docs (timerFires lineStore 1
       (discardSandboxCmd lineStore (Some ''untitled:Untitled-1'') pending_world)) ''file:///w.ts'')
     = Some [''Z'', ''b'', ''c'']"
  "sandboxMap (timerFires lineStore 1
       (discardSandboxCmd lineStore (Some ''untitled:Untitled-1'') pending_world))
     ''untitled:Untitled-1'' = None"
  by (simp_all add: cycle_defs pending_world_facts witness_session_def witness_regions_def
      parse_stale store_defs Let_def)

lemma accept_then_timer:
  "sandboxMap (applySandboxCmd (Some ''untitled:Untitled-1'') pending_world)
     ''untitled:Untitled-1'' = None"
  "timers (applySandboxCmd (Some ''untitled:Untitled-1'') pending_world) 1
     = Some (0, ''untitled:Untitled-1'')"
  "map_option docLines (docs (applySandboxCmd (Some ''untitled:Untitled-1'') pending_world)
     ''file:///w.ts'') = Some [''A'', ''b'', ''c'']"
  "map_option docLines (docs (timerFires lineStore 1
       (applySandboxCmd (Some ''untitled:Untitled-1'') pending_world)) ''file:///w.ts'')
     = Some [''Z'', ''b'', ''c'']"
  "sandboxMap (timerFires lineStore 1
       (applySandboxCmd (Some ''untitled:Untitled-1'') pending_world))
     ''untitled:Untitled-1'' = None"
  by (simp_all add: cycle_defs pending_world_facts witness_session_def witness_regions_def
      parse_stale store_defs Let_def)

text \<open>
  Claim C10. Accept and revert leave the pending timers and the session objects untouched;
  they only remove the registry entry. The timer callback never reads the registry: firing
  a timer in a world whose registry was replaced gives the same world as firing it first.
  In the scenario, a live session has synced once, a second edit has scheduled timer 1, and
  the session is then reverted (or accepted): the registry entry is gone, timer 1 is still
  pending, the file holds the pristine (or the last synced) lines, and when timer 1 fires
  the line \<open>Z\<close> of the stale buffer is written to the file.
\<close>

theorem timer_outlives_session:
  "timers (applySandboxCmd editor w) = timers w \<and>
   sessions (applySandboxCmd editor w) = sessions w \<and>
   timers (discardSandboxCmd store editor w) = timers w \<and>
   sessions (discardSandboxCmd store editor w) = sessions w \<and>
   timerFires store h (w\<lparr>sandboxMap := m\<rparr>) = (timerFires store h w)\<lparr>sandboxMap := m\<rparr> \<and>
   sandboxMap pending_world ''untitled:Untitled-1'' = Some 0 \<and>
   timers pending_world 1 = Some (0, ''untitled:Untitled-1'') \<and>
   buffers pending_world ''untitled:Untitled-1'' = stale_text \<and>
   sandboxMap (discardSandboxCmd lineStore (Some ''untitled:Untitled-1'') pending_world)
     ''untitled:Untitled-1'' = None \<and>
   timers (discardSandboxCmd lineStore (Some ''untitled:Untitled-1'') pending_world) 1
     = Some (0, ''untitled:Untitled-1'') \<and>
   map_option docLines (docs (discardSandboxCmd lineStore (Some ''untitled:Untitled-1'') pending_world)
     ''file:///w.ts'') = Some [''a'', ''b'', ''c''] \<and>
   map_option docLines (docs (timerFires lineStore 1
       (discardSandboxCmd lineStore (Some ''untitled:Untitled-1'') pending_world)) ''file:///w.ts'')
     = Some [''Z'', ''b'', ''c''] \<and>
   sandboxMap (applySandboxCmd (Some ''untitled:Untitled-1'') pending_world)
     ''untitled:Untitled-1'' = None \<and>
   timers (applySandboxCmd (Some ''untitled:Untitled-1'') pending_world) 1
     = Some (0, ''untitled:Untitled-1'') \<and>
   map_option docLines (docs (applySandboxCmd (Some ''untitled:Untitled-1'') pending_world)
     ''file:///w.ts'') = Some [''A'', ''b'', ''c''] \<and>
   map_option docLines (docs (timerFires lineStore 1
       (applySandboxCmd (Some ''untitled:Untitled-1'') pending_world)) ''file:///w.ts'')
     = Some [''Z'', ''b'', ''c'']"
  using applySandboxCmd_frame [of editor w] discardSandboxCmd_frame [of store editor w]
    timerFires_ignores_registry [where store = store and h = h and w = w and m = m]
    pending_world_facts(2,3,6) revert_then_timer(1-4) accept_then_timer(1-4)
  by simp

text \<open>
  Claim C5 (what the code does). The accept command of the multi-region engine never
  touches the Document Store: it submits no edit, saves nothing and leaves every document
  as it is. For a session whose live sync was never switched on and whose buffer was
  edited (line \<open>a\<close> changed to \<open>A\<close>), accept removes the session and shows the
  changes-kept message while the file still holds the old lines.
\<close>

theorem accept_without_write_back:
  "docs (applySandboxCmd editor w) = docs w \<and>
   submitted (applySandboxCmd editor w) = submitted w \<and>
   saved (applySandboxCmd editor w) = saved w \<and>
   sandboxMap idle_world ''untitled:Untitled-1'' = Some 0 \<and>
   isLive (sessions idle_world 0) = False \<and>
   parseSandboxText (buffers idle_world ''untitled:Untitled-1'')
     = Inr [(''region_0'', ''A''), (''region_1'', ''c'')] \<and>
   map_option docLines (docs idle_world ''file:///w.ts'') = Some [''a'', ''b'', ''c''] \<and>
   sandboxMap (applySandboxCmd (Some ''untitled:Untitled-1'') idle_world) ''untitled:Untitled-1'' = None \<and>
   map_option docLines (docs (applySandboxCmd (Some ''untitled:Untitled-1'') idle_world) ''file:///w.ts'')
     = Some [''a'', ''b'', ''c''] \<and>
   submitted (applySandboxCmd (Some ''untitled:Untitled-1'') idle_world) = [] \<and>
   messages (applySandboxCmd (Some ''untitled:Untitled-1'') idle_world) = [ChangesKept]"
  using applySandboxCmd_frame [of editor w]
  by (simp add: applySandboxCmd_def idle_world_def world_defs parse_edited Let_def)

section \<open>Backups\<close>

lemma openUnifiedSandbox_backups:
  "backups (fst (openUnifiedSandbox symbols docKey uriStr targetLines w)) = backups w"
  by (simp add: openUnifiedSandbox_def Let_def split: option.split sum.split prod.split)

text \<open>
  Claim C9 (what the code does). Slicing with the multi-region engine writes nothing to the
  backup storage, whatever the inputs. Slicing lines 0 and 2 of a three-line file creates
  and registers a session with one region \<open>[0,2]\<close> whose backup handle is undefined, and
  the storage is still empty.
\<close>

theorem slice_without_backup:
  "backups (fst (openUnifiedSandbox symbols docKey uriStr targetLines w)) = backups w \<and>
   snd (openUnifiedSandbox [] ''untitled:Untitled-1'' ''file:///w.ts'' [0, 2] blank_world) = None \<and>
   sandboxMap (fst (openUnifiedSandbox [] ''untitled:Untitled-1'' ''file:///w.ts'' [0, 2] blank_world))
     ''untitled:Untitled-1'' = Some 0 \<and>
   map originalRange (regions (sessions
       (fst (openUnifiedSandbox [] ''untitled:Untitled-1'' ''file:///w.ts'' [0, 2] blank_world)) 0))
     = [\<lparr>startLine = 0, endLine = 2\<rparr>] \<and>
   backupUri (sessions
       (fst (openUnifiedSandbox [] ''untitled:Untitled-1'' ''file:///w.ts'' [0, 2] blank_world)) 0)
     = None \<and>
   backups (fst (openUnifiedSandbox [] ''untitled:Untitled-1'' ''file:///w.ts'' [0, 2] blank_world))
     = Map.empty"
proof -
  have example:
    "snd (openUnifiedSandbox [] ''untitled:Untitled-1'' ''file:///w.ts'' [0, 2] blank_world) = None \<and>
     sandboxMap (fst (openUnifiedSandbox [] ''untitled:Untitled-1'' ''file:///w.ts'' [0, 2] blank_world))
       ''untitled:Untitled-1'' = Some 0 \<and>
     map originalRange (regions (sessions
         (fst (openUnifiedSandbox [] ''untitled:Untitled-1'' ''file:///w.ts'' [0, 2] blank_world)) 0))
       = [\<lparr>startLine = 0, endLine = 2\<rparr>] \<and>
     backupUri (sessions
         (fst (openUnifiedSandbox [] ''untitled:Untitled-1'' ''file:///w.ts'' [0, 2] blank_world)) 0)
       = None \<and>
     backups (fst (openUnifiedSandbox [] ''untitled:Untitled-1'' ''file:///w.ts'' [0, 2] blank_world))
       = Map.empty"
    by (simp add: openUnifiedSandbox_def blank_world_def witness_doc_def lineToRange_def
        mergeRanges_def merge_step_def doc_defs Let_def)
  show ?thesis
    using openUnifiedSandbox_backups [of symbols docKey uriStr targetLines w] example
    by blast
qed

end
